theory Spec2Isabelle
  imports Main "HOL-Library.Word" "HOL-Library.Sublist"
begin

unbundle bit_operations_syntax

section \<open>Values, errors and outcomes\<close>

text \<open>
  The variable manager stores Go values of type \<^verbatim>\<open>interface{}\<close>. The shapes that reach it
  are the interpreter's values (nil, booleans, \<^verbatim>\<open>int64\<close>, \<^verbatim>\<open>float64\<close>, strings, function
  values such as \<^verbatim>\<open>runFn\<close> and \<^verbatim>\<open>logFn\<close>) and what \<^verbatim>\<open>json.Unmarshal\<close> produces (nil,
  booleans, \<^verbatim>\<open>float64\<close>, strings, slices). A \<^verbatim>\<open>float64\<close> is its IEEE-754 bit pattern:
  the code never computes with it, it only compares and stores it. \<open>VSlice\<close> is a non-nil
  \<^verbatim>\<open>[]interface{}\<close>.
\<close>

datatype func = Builtin_run | Builtin_log | Closure nat

datatype val =
    VNil
  | VBool bool
  | VInt64 "64 word"
  | VFloat64 "64 word"
  | VStr string
  | VSlice "val list"
  | VFunc func

text \<open>A Go \<^verbatim>\<open>error\<close> is the message it carries.\<close>

datatype error = Error string

text \<open>
  A call either returns or panics. Only the calls whose source can panic have this type;
  a Go result \<^verbatim>\<open>(interface{}, error)\<close> is \<open>error + val\<close> and a result \<^verbatim>\<open>error\<close> is
  \<open>error option\<close>.
\<close>

datatype 'a outcome = Returns 'a | Panics string

subsection \<open>The comparison \<^verbatim>\<open>old == value\<close> on interface values\<close>

text \<open>
  Go compares two interface values by dynamic type first: different types are unequal;
  identical comparable types compare by value (a NaN is unequal to everything, the two
  zeros are equal); identical types that are not comparable (slices, functions) raise a
  run-time panic, which is \<open>None\<close> here.
\<close>

definition float64_is_NaN :: "64 word \<Rightarrow> bool" where
  "float64_is_NaN w =
     (w AND 0x7FF0000000000000 = 0x7FF0000000000000 \<and> w AND 0x000FFFFFFFFFFFFF \<noteq> 0)"

definition float64_is_Inf :: "64 word \<Rightarrow> bool" where
  "float64_is_Inf w = (w AND 0x7FFFFFFFFFFFFFFF = 0x7FF0000000000000)"

definition float64_is_zero :: "64 word \<Rightarrow> bool" where
  "float64_is_zero w = (w AND 0x7FFFFFFFFFFFFFFF = 0)"

definition float64_eq :: "64 word \<Rightarrow> 64 word \<Rightarrow> bool" where
  "float64_eq a b =
     (if float64_is_NaN a \<or> float64_is_NaN b then False
      else if float64_is_zero a \<and> float64_is_zero b then True
      else a = b)"

fun go_eq :: "val \<Rightarrow> val \<Rightarrow> bool option" where
  "go_eq VNil VNil = Some True"
| "go_eq (VBool a) (VBool b) = Some (a = b)"
| "go_eq (VInt64 a) (VInt64 b) = Some (a = b)"
| "go_eq (VFloat64 a) (VFloat64 b) = Some (float64_eq a b)"
| "go_eq (VStr a) (VStr b) = Some (a = b)"
| "go_eq (VSlice a) (VSlice b) = None"
| "go_eq (VFunc a) (VFunc b) = None"
| "go_eq _ _ = Some False"

section \<open>The persisted record\<close>

text \<open>
  \<^verbatim>\<open>type Value struct { Name string `json:"-"`; Value interface{} `json:"value"` }\<close>
\<close>

record Value =
  Name :: string
  Value :: val

text \<open>
  \<^verbatim>\<open>json.Marshal\<close> of the payload. The digits of a 64-bit integer, the literals and the
  brackets are written out; the text of a finite float and of a quoted string is left to
  \<open>fmt\<close> (\<^verbatim>\<open>strconv\<close> and the escaping rules of \<^verbatim>\<open>encoding/json\<close>). Function values are an
  unsupported type (all of them have the type of \<^verbatim>\<open>runFn\<close>); NaN and the infinities are
  unsupported values. A slice fails with the error of its first element that fails.
\<close>

function nat_decimal :: "nat \<Rightarrow> string" where
  "nat_decimal n =
     (if n < 10 then [''0123456789'' ! n]
      else nat_decimal (n div 10) @ [''0123456789'' ! (n mod 10)])"
  by pat_completeness auto
termination
  by (relation "measure id") auto

definition int_decimal :: "int \<Rightarrow> string" where
  "int_decimal i = (if i < 0 then CHR ''-'' # nat_decimal (nat (- i)) else nat_decimal (nat i))"

fun join_comma :: "string list \<Rightarrow> string" where
  "join_comma [] = []"
| "join_comma [p] = p"
| "join_comma (p # ps) = p @ '','' @ join_comma ps"

fun first_error :: "(error + 'a) list \<Rightarrow> error + 'a list" where
  "first_error [] = Inr []"
| "first_error (Inl e # rs) = Inl e"
| "first_error (Inr x # rs) = (case first_error rs of Inl e \<Rightarrow> Inl e | Inr xs \<Rightarrow> Inr (x # xs))"

fun json_payload :: "(val \<Rightarrow> string) \<Rightarrow> val \<Rightarrow> error + string" where
  "json_payload fmt VNil = Inr ''null''"
| "json_payload fmt (VBool b) = Inr (if b then ''true'' else ''false'')"
| "json_payload fmt (VInt64 n) = Inr (int_decimal (sint n))"
| "json_payload fmt (VFloat64 x) =
     (if float64_is_NaN x then Inl (Error ''json: unsupported value: NaN'')
      else if float64_is_Inf x then
        Inl (Error (if bit x 63 then ''json: unsupported value: -Inf''
                    else ''json: unsupported value: +Inf''))
      else Inr (fmt (VFloat64 x)))"
| "json_payload fmt (VStr s) = Inr (fmt (VStr s))"
| "json_payload fmt (VSlice vs) =
     (case first_error (map (json_payload fmt) vs) of
        Inl e \<Rightarrow> Inl e
      | Inr ps \<Rightarrow> Inr (''['' @ join_comma ps @ '']''))"
| "json_payload fmt (VFunc f) =
     Inl (Error ''json: unsupported type: func([]interface {}) (interface {}, error)'')"

text \<open>
  \<^verbatim>\<open>json.Marshal(v)\<close> for \<^verbatim>\<open>v *Value\<close>: the field \<^verbatim>\<open>Name\<close> is tagged \<^verbatim>\<open>"-"\<close> and is left
  out, the field \<^verbatim>\<open>Value\<close> is written under the key \<^verbatim>\<open>value\<close>.
\<close>

definition json_Marshal :: "(val \<Rightarrow> string) \<Rightarrow> Value \<Rightarrow> error + string" where
  \<open>json_Marshal fmt v =
     (case json_payload fmt (Value v) of
        Inl e \<Rightarrow> Inl e
      | Inr p \<Rightarrow> Inr (''{"value":'' @ p @ ''}''))\<close>

section \<open>The collaborators and the state\<close>

text \<open>
  The store (\<^verbatim>\<open>GetStore()\<close>), the JSON decoder and the host's process launcher are not
  part of the sources; the functions below take them as parameters. \<open>store_Get\<close> and
  \<open>store_Set\<close> are the two calls of the store interface over a store state \<open>'s\<close>;
  \<open>json_Unmarshal b\<close> is the field \<^verbatim>\<open>Value\<close> that \<^verbatim>\<open>json.Unmarshal([]byte(b), v)\<close> leaves in
  a fresh \<^verbatim>\<open>Value\<close>, or its error; \<open>exec_Run\<close> is what \<^verbatim>\<open>cmd.Run()\<close> reports for a command
  line.
\<close>

record 's env =
  store_Get :: "'s \<Rightarrow> string \<Rightarrow> error + string"
  store_Set :: "'s \<Rightarrow> string \<Rightarrow> string \<Rightarrow> error option \<times> 's"
  json_text :: "val \<Rightarrow> string"
  json_Unmarshal :: "string \<Rightarrow> error + val"
  exec_Run :: "string list \<Rightarrow> error option"

text \<open>
  \<^verbatim>\<open>type VariableManager struct { Updates chan *Value; cache map[string]*Value }\<close>.
  The channel is unbuffered: a send returns when a receiver has taken the value, and blocks
  until then. The dispatch loop of the rule manager receives for the whole life of the
  process, and the model takes it to be there: a send is the hand-over, and \<open>Updates\<close> is
  the sequence of values handed over so far.
\<close>

record VariableManager =
  Updates :: "Value list"
  cache :: "string \<rightharpoonup> Value"

text \<open>
  What the code does to the cache, the queue, the store, the log and the host, in the order
  in which it does it.
\<close>

datatype effect =
    StoreGet string
  | StoreSet string string
  | CachePut string Value
  | Send Value
  | LogLine string
  | Exec "string list"
  | RuleRun string

record 's world =
  manager :: VariableManager
  store :: 's
  trace :: "effect list"

definition varPrefix :: string where
  "varPrefix = ''var~''"

text \<open>\<^verbatim>\<open>GetManager\<close> creates the manager on first use: an empty channel and an empty cache.\<close>

definition GetManager :: VariableManager where
  "GetManager = \<lparr>Updates = [], cache = Map.empty\<rparr>"

definition init_world :: "'s \<Rightarrow> 's world" where
  "init_world st = \<lparr>manager = GetManager, store = st, trace = []\<rparr>"

subsection \<open>The single steps of \<^verbatim>\<open>Get\<close> and \<^verbatim>\<open>Set\<close>\<close>

definition store_read :: "'s env \<Rightarrow> string \<Rightarrow> 's world \<Rightarrow> (error + string) \<times> 's world" where
  "store_read E key w = (store_Get E (store w) key, w\<lparr>trace := trace w @ [StoreGet key]\<rparr>)"

definition store_write :: "'s env \<Rightarrow> string \<Rightarrow> string \<Rightarrow> 's world \<Rightarrow> error option \<times> 's world" where
  "store_write E key b w =
     (case store_Set E (store w) key b of
        (r, st') \<Rightarrow> (r, w\<lparr>store := st', trace := trace w @ [StoreSet key b]\<rparr>))"

definition cache_put :: "string \<Rightarrow> Value \<Rightarrow> 's world \<Rightarrow> 's world" where
  "cache_put name v w =
     w\<lparr>manager := (manager w)\<lparr>cache := (cache (manager w))(name \<mapsto> v)\<rparr>,
       trace := trace w @ [CachePut name v]\<rparr>"

definition chan_send :: "Value \<Rightarrow> 's world \<Rightarrow> 's world" where
  "chan_send v w =
     w\<lparr>manager := (manager w)\<lparr>Updates := Updates (manager w) @ [v]\<rparr>,
       trace := trace w @ [Send v]\<rparr>"

section \<open>The variable manager\<close>

text \<open>\<^verbatim>\<open>func (vm *VariableManager) Get(name string) (interface{}, error)\<close>, lines 44 to 64.\<close>

definition VariableManager_Get :: "'s env \<Rightarrow> string \<Rightarrow> 's world \<Rightarrow> (error + val) \<times> 's world" where
  "VariableManager_Get E name w =
     (case cache (manager w) name of
        Some v \<Rightarrow> (Inr (Value v), w)
      | None \<Rightarrow>
          (case store_read E (varPrefix @ name) w of
             (Inl err, w1) \<Rightarrow> (Inl (Error (''undefined symbol: '' @ name)), w1)
           | (Inr b, w1) \<Rightarrow>
               (case json_Unmarshal E b of
                  Inr v \<Rightarrow> (Inr v, w1)
                | Inl err \<Rightarrow> (Inl err, w1))))"

text \<open>
  \<^verbatim>\<open>func (vm *VariableManager) Set(name string, value interface{}) error\<close>, lines 66 to 83.
  In \<^verbatim>\<open>err == nil && old == value\<close> the comparison is evaluated only when \<^verbatim>\<open>Get\<close> succeeded.
  After \<^verbatim>\<open>json.Marshal\<close> the code writes the cache (line 80), sends on the channel (line 81)
  and returns what \<^verbatim>\<open>store.Set\<close> returns (line 82).
\<close>

definition unchanged :: "error + val \<Rightarrow> val \<Rightarrow> bool option" where
  "unchanged r v = (case r of Inl err \<Rightarrow> Some False | Inr old \<Rightarrow> go_eq old v)"

definition VariableManager_Set ::
  "'s env \<Rightarrow> string \<Rightarrow> val \<Rightarrow> 's world \<Rightarrow> error option outcome \<times> 's world" where
  "VariableManager_Set E name v w =
     (case VariableManager_Get E name w of
        (r, w1) \<Rightarrow>
          (case unchanged r v of
             None \<Rightarrow> (Panics ''runtime error: comparing uncomparable type'', w1)
           | Some True \<Rightarrow> (Returns None, w1)
           | Some False \<Rightarrow>
               (case json_Marshal (json_text E) \<lparr>Value.Name = name, Value = v\<rparr> of
                  Inl err \<Rightarrow> (Returns (Some err), w1)
                | Inr b \<Rightarrow>
                    (let w2 = cache_put name \<lparr>Value.Name = name, Value = v\<rparr> w1;
                         w3 = chan_send \<lparr>Value.Name = name, Value = v\<rparr> w2
                     in case store_write E (varPrefix @ name) b w3 of
                          (err, w4) \<Rightarrow> (Returns err, w4)))))"

section \<open>The built-in callables\<close>

text \<open>
  \<^verbatim>\<open>runFn\<close>, lines 123 to 149. The loop over its arguments stops at the first one that is no
  string.
\<close>

fun run_commands :: "val list \<Rightarrow> string list \<Rightarrow> error + string list" where
  "run_commands [] commands = Inr commands"
| "run_commands (VStr s # args) commands = run_commands args (commands @ [s])"
| "run_commands (_ # args) commands = Inl (Error ''run only takes string arguments'')"

text \<open>
  \<^verbatim>\<open>exec.Command(name, arg...)\<close> is the command line; \<^verbatim>\<open>cmd.Run()\<close> starts the process and
  waits for it, and the host decides what it reports.
\<close>

definition exec_Command :: "string \<Rightarrow> string list \<Rightarrow> string list" where
  "exec_Command name arg = name # arg"

definition cmd_Run :: "'s env \<Rightarrow> string list \<Rightarrow> 's world \<Rightarrow> error option \<times> 's world" where
  "cmd_Run E cmd w = (exec_Run E cmd, w\<lparr>trace := trace w @ [Exec cmd]\<rparr>)"

text \<open>
  \<^verbatim>\<open>commands[0]\<close> panics on an empty slice. After a successful \<^verbatim>\<open>cmd.Run()\<close> the code calls
  \<^verbatim>\<open>cmd.Wait()\<close> and drops what it returns; a failed \<^verbatim>\<open>cmd.Run()\<close> is dropped as well.
\<close>

definition runFn :: "'s env \<Rightarrow> val list \<Rightarrow> 's world \<Rightarrow> (error + val) outcome \<times> 's world" where
  "runFn E args w =
     (if length args < 1 then (Returns (Inl (Error ''run takes at least one argument'')), w)
      else
        (case run_commands args [] of
           Inl err \<Rightarrow> (Returns (Inl err), w)
         | Inr commands \<Rightarrow>
             (case commands of
                [] \<Rightarrow> (Panics ''runtime error: index out of range'', w)
              | c # rest \<Rightarrow>
                  (let cmd = (if length commands = 1 then exec_Command c []
                              else exec_Command c rest)
                   in case cmd_Run E cmd w of
                        (None, w') \<Rightarrow> (Returns (Inr VNil), w')
                      | (Some err, w') \<Rightarrow> (Returns (Inr VNil), w')))))"

text \<open>\<^verbatim>\<open>logFn\<close>, lines 152 to 160.\<close>

definition log_Println :: "string \<Rightarrow> 's world \<Rightarrow> 's world" where
  "log_Println s w = w\<lparr>trace := trace w @ [LogLine s]\<rparr>"

definition logFn :: "val list \<Rightarrow> 's world \<Rightarrow> (error + val) \<times> 's world" where
  "logFn args w =
     (case (if length args = 1 then (case args ! 0 of VStr s \<Rightarrow> Some s | _ \<Rightarrow> None) else None) of
        Some s \<Rightarrow> (Inr VNil, log_Println s w)
      | None \<Rightarrow> (Inl (Error ''log function takes a single string argument''), w))"

section \<open>The scope bridge\<close>

text \<open>
  \<^verbatim>\<open>type GlobalScope struct { fset *ast.FileSet }\<close> and its methods, lines 88 to 120.
  \<^verbatim>\<open>Create\<close>, \<^verbatim>\<open>Branch\<close> and \<^verbatim>\<open>Enclose\<close> are \<^verbatim>\<open>panic("never reached")\<close>.
\<close>

record 'f GlobalScope =
  fset :: 'f

definition NewGlobalScope :: "'f \<Rightarrow> 'f GlobalScope" where
  "NewGlobalScope f = \<lparr>fset = f\<rparr>"

definition GlobalScope_Create :: "'f GlobalScope \<Rightarrow> string \<Rightarrow> val \<Rightarrow> error option outcome" where
  "GlobalScope_Create s symbol v = Panics ''never reached''"

definition GlobalScope_Set ::
  "'s env \<Rightarrow> 'f GlobalScope \<Rightarrow> string \<Rightarrow> val \<Rightarrow> 's world \<Rightarrow> error option outcome \<times> 's world" where
  "GlobalScope_Set E s symbol v w = VariableManager_Set E symbol v w"

definition GlobalScope_Get ::
  "'s env \<Rightarrow> 'f GlobalScope \<Rightarrow> string \<Rightarrow> 's world \<Rightarrow> (error + val) \<times> 's world" where
  "GlobalScope_Get E s symbol w = VariableManager_Get E symbol w"

definition GlobalScope_Branch :: "'f GlobalScope \<Rightarrow> 'sc outcome" where
  "GlobalScope_Branch s = Panics ''never reached''"

definition GlobalScope_Enclose :: "'f GlobalScope \<Rightarrow> 'sc \<Rightarrow> error option outcome" where
  "GlobalScope_Enclose s parent = Panics ''never reached''"

text \<open>
  The interpreter is a library outside the sources. Its default scope and its evaluator
  are parameters: \<open>NewDefaultScope\<close>, \<open>Enclose\<close> and \<open>Create\<close> build a scope of type
  \<open>'sc\<close> (the errors the last two return are dropped by the code), and \<open>Eval\<close> evaluates a
  program in a scope and a world and leaves both changed.
\<close>

record ('sc, 'node, 'f, 'w) twik =
  NewDefaultScope :: "'f \<Rightarrow> 'sc"
  Enclose :: "'sc \<Rightarrow> 'f GlobalScope \<Rightarrow> 'sc"
  Create :: "'sc \<Rightarrow> string \<Rightarrow> val \<Rightarrow> 'sc"
  Eval :: "'sc \<Rightarrow> 'node \<Rightarrow> 'w \<Rightarrow> (error + val) \<times> 'sc \<times> 'w"

definition GlobalScope_Eval ::
  "('sc, 'node, 'f, 'w) twik \<Rightarrow> 'f GlobalScope \<Rightarrow> 'node \<Rightarrow> 'w \<Rightarrow> (error + val) \<times> 'w" where
  "GlobalScope_Eval T s node w =
     (let scope0 = NewDefaultScope T (fset s);
          scope1 = Enclose T scope0 s;
          scope2 = Create T scope1 ''run'' (VFunc Builtin_run);
          scope3 = Create T scope2 ''log'' (VFunc Builtin_log)
      in case Eval T scope3 node w of (r, scope', w') \<Rightarrow> (r, w'))"

section \<open>Rules and the rule batch\<close>

text \<open>
  \<^verbatim>\<open>type Rule struct { Name string; program ast.Node; scope twik.Scope }\<close>; the scope of a
  rule is the bridge that \<^verbatim>\<open>NewRule\<close> builds with \<^verbatim>\<open>NewGlobalScope\<close>. \<^verbatim>\<open>Rule.Run\<close>, lines 196
  to 199.
\<close>

record ('node, 'f) Rule =
  Name :: string
  program :: 'node
  scope :: "'f GlobalScope"

definition Rule_Run ::
  "('sc, 'node, 'f, 'w) twik \<Rightarrow> ('node, 'f) Rule \<Rightarrow> 'w \<Rightarrow> error option \<times> 'w" where
  "Rule_Run T r w =
     (case GlobalScope_Eval T (scope r) (program r) w of
        (Inl err, w') \<Rightarrow> (Some err, w')
      | (Inr x, w') \<Rightarrow> (None, w'))"

fun Error_text :: "error \<Rightarrow> string" where
  "Error_text (Error m) = m"

text \<open>\<^verbatim>\<open>log.Printf("error in '%s': %s\n", r.Name, err.Error())\<close>\<close>

definition error_line :: "string \<Rightarrow> error \<Rightarrow> string" where
  "error_line name err = ''error in '' @ [CHR 0x27] @ name @ [CHR 0x27] @ '': '' @ Error_text err"

text \<open>
  The body of the goroutine that the dispatch loop starts for one change event, lines 259 to
  264:
  \<^verbatim>\<open>for _, r := range m.rules { err := r.Run(); if err != nil { log.Printf(...) } }\<close>.
  \<open>RuleRun\<close> marks the call of \<^verbatim>\<open>r.Run()\<close> in the trace.
\<close>

definition log_Printf :: "string \<Rightarrow> 's world \<Rightarrow> 's world" where
  "log_Printf line w = w\<lparr>trace := trace w @ [LogLine line]\<rparr>"

definition rule_started :: "('node, 'f) Rule \<Rightarrow> 's world \<Rightarrow> 's world" where
  "rule_started r w = w\<lparr>trace := trace w @ [RuleRun (Rule.Name r)]\<rparr>"

fun run_rules ::
  "('sc, 'node, 'f, 's world) twik \<Rightarrow> ('node, 'f) Rule list \<Rightarrow> 's world \<Rightarrow> 's world" where
  "run_rules T [] w = w"
| "run_rules T (r # rs) w =
     (case Rule_Run T r (rule_started r w) of
        (None, w') \<Rightarrow> run_rules T rs w'
      | (Some err, w') \<Rightarrow> run_rules T rs (log_Printf (error_line (Rule.Name r) err) w'))"

section \<open>Instances of the collaborators for closed examples\<close>

text \<open>
  Modelled from the spec: the Store, which is not among the sources, "a durable key/value
  byte store with \<^verbatim>\<open>Get(key) \<rightarrow> bytes | NotFound\<close> and \<^verbatim>\<open>Set(key, bytes) \<rightarrow> ok | error\<close>".
  \<open>kv_Set\<close> always succeeds; \<open>down_Set\<close> is a store whose writes fail.
\<close>

type_synonym kv = "(string \<times> string) list"

definition kv_Get :: "kv \<Rightarrow> string \<Rightarrow> error + string" where
  "kv_Get st key = (case map_of st key of None \<Rightarrow> Inl (Error ''NotFound'') | Some b \<Rightarrow> Inr b)"

definition kv_Set :: "kv \<Rightarrow> string \<Rightarrow> string \<Rightarrow> error option \<times> kv" where
  "kv_Set st key b = (None, (key, b) # st)"

definition down_Set :: "kv \<Rightarrow> string \<Rightarrow> string \<Rightarrow> error option \<times> kv" where
  "down_Set st key b = (Some (Error ''store: write failed''), st)"

text \<open>
  The decoder on the three documents the examples read; \<^verbatim>\<open>json.Unmarshal\<close> decodes every
  JSON number into a \<^verbatim>\<open>float64\<close>, so \<^verbatim>\<open>1\<close> comes back as the float 1.0. The text of a
  string without characters that need escaping is the string between double quotes.
\<close>

definition sample_Unmarshal :: "string \<Rightarrow> error + val" where
  \<open>sample_Unmarshal b =
     (if b = ''{"value":null}'' then Inr VNil
      else if b = ''{"value":true}'' then Inr (VBool True)
      else if b = ''{"value":1}'' then Inr (VFloat64 0x3FF0000000000000)
      else Inl (Error ''json: cannot decode''))\<close>

definition sample_text :: "val \<Rightarrow> string" where
  "sample_text v = (case v of VStr s \<Rightarrow> [CHR 0x22] @ s @ [CHR 0x22] | _ \<Rightarrow> [])"

definition sample_env :: "kv env" where
  "sample_env =
     \<lparr>store_Get = kv_Get, store_Set = kv_Set, json_text = sample_text,
      json_Unmarshal = sample_Unmarshal, exec_Run = (\<lambda>c. None)\<rparr>"

definition down_env :: "kv env" where
  "down_env = sample_env\<lparr>store_Set := down_Set\<rparr>"

text \<open>
  A small evaluator in the interpreter's place. A scope is its bindings and the parent it
  encloses. \<^verbatim>\<open>(var x v)\<close> declares a binding in the current scope and fails when the symbol
  is already defined there; a symbol is looked up in the current scope and then in the
  parent, the bridge; \<^verbatim>\<open>(log ...)\<close> calls what the scope binds to \<^verbatim>\<open>log\<close>.
\<close>

datatype sample_node = NVar string val | NSym string | NLog "val list"

type_synonym sample_scope = "(string \<times> val) list \<times> unit GlobalScope option"

definition sample_Enclose :: "sample_scope \<Rightarrow> unit GlobalScope \<Rightarrow> sample_scope" where
  "sample_Enclose sc s = (fst sc, Some s)"

definition sample_Create :: "sample_scope \<Rightarrow> string \<Rightarrow> val \<Rightarrow> sample_scope" where
  "sample_Create sc x v =
     (case map_of (fst sc) x of None \<Rightarrow> ((x, v) # fst sc, snd sc) | Some y \<Rightarrow> sc)"

fun sample_Eval ::
  "'s env \<Rightarrow> sample_scope \<Rightarrow> sample_node \<Rightarrow> 's world \<Rightarrow> (error + val) \<times> sample_scope \<times> 's world" where
  "sample_Eval E sc (NVar x v) w =
     (case map_of (fst sc) x of
        None \<Rightarrow> (Inr v, ((x, v) # fst sc, snd sc), w)
      | Some y \<Rightarrow> (Inl (Error (''symbol already defined in current scope: '' @ x)), sc, w))"
| "sample_Eval E sc (NSym x) w =
     (case map_of (fst sc) x of
        Some v \<Rightarrow> (Inr v, sc, w)
      | None \<Rightarrow>
          (case snd sc of
             None \<Rightarrow> (Inl (Error (''undefined symbol: '' @ x)), sc, w)
           | Some s \<Rightarrow> (case GlobalScope_Get E s x w of (r, w') \<Rightarrow> (r, sc, w'))))"
| "sample_Eval E sc (NLog args) w =
     (case map_of (fst sc) ''log'' of
        Some (VFunc Builtin_log) \<Rightarrow> (case logFn args w of (r, w') \<Rightarrow> (r, sc, w'))
      | _ \<Rightarrow> (Inl (Error ''undefined symbol: log''), sc, w))"

definition sample_twik :: "'s env \<Rightarrow> (sample_scope, sample_node, unit, 's world) twik" where
  "sample_twik E =
     \<lparr>NewDefaultScope = (\<lambda>f. ([], None)), Enclose = sample_Enclose, Create = sample_Create,
      Eval = sample_Eval E\<rparr>"

section \<open>Orderings on the trace and example worlds\<close>

text \<open>
  Persist-then-notify on a run of effects: every value handed to the queue has had its
  key written to the store earlier in the run (\<open>keys\<close> are the keys written so far).
\<close>

fun persisted_before_notified :: "string list \<Rightarrow> effect list \<Rightarrow> bool" where
  "persisted_before_notified keys [] = True"
| "persisted_before_notified keys (StoreSet k b # es) = persisted_before_notified (k # keys) es"
| "persisted_before_notified keys (Send v # es) =
     (varPrefix @ Value.Name v \<in> set keys \<and> persisted_before_notified keys es)"
| "persisted_before_notified keys (e # es) = persisted_before_notified keys es"

text \<open>
  The world in which the receiver of a change event wakes up: \<^verbatim>\<open>vm.cache[name] = v\<close> and
  \<^verbatim>\<open>vm.Updates <- v\<close> are done, \<^verbatim>\<open>store.Set\<close> is still to come.
\<close>

definition handoff :: "string \<Rightarrow> val \<Rightarrow> 's world \<Rightarrow> 's world" where
  "handoff name v w =
     chan_send \<lparr>Value.Name = name, Value = v\<rparr> (cache_put name \<lparr>Value.Name = name, Value = v\<rparr> w)"

text \<open>The effects a call added to the trace.\<close>

definition effects_since :: "'s world \<Rightarrow> 's world \<Rightarrow> effect list" where
  "effects_since w w' = drop (length (trace w)) (trace w')"

text \<open>
  A world whose cache holds \<^verbatim>\<open>x = 7\<close>, and a world after a restart: the store holds
  \<^verbatim>\<open>x = true\<close> from an earlier process and the cache is empty.
\<close>

definition cached_x :: "kv world" where
  "cached_x =
     \<lparr>manager = \<lparr>Updates = [], cache = [''x'' \<mapsto> \<lparr>Value.Name = ''x'', Value = VInt64 7\<rparr>]\<rparr>,
      store = [], trace = []\<rparr>"

definition restarted_x :: "kv world" where
  \<open>restarted_x = init_world [(''var~x'', ''{"value":true}'')]\<close>

text \<open>A host on which no command can be started.\<close>

definition no_exec_env :: "kv env" where
  "no_exec_env = sample_env\<lparr>exec_Run := (\<lambda>c. Some (Error ''exec: executable file not found in $PATH''))\<rparr>"

text \<open>
  Three rules, the second of which reads a variable that nobody has set; a rule that
  declares a local binding; and an evaluator that differs from the sample one only in
  the scope it leaves behind.
\<close>

definition batch3 :: "(sample_node, unit) Rule list" where
  "batch3 =
     [\<lparr>Rule.Name = ''first.rule'', program = NLog [VStr ''one''], scope = NewGlobalScope ()\<rparr>,
      \<lparr>Rule.Name = ''second.rule'', program = NSym ''missing'', scope = NewGlobalScope ()\<rparr>,
      \<lparr>Rule.Name = ''third.rule'', program = NLog [VStr ''three''], scope = NewGlobalScope ()\<rparr>]"

definition tmp_rule :: "(sample_node, unit) Rule" where
  "tmp_rule =
     \<lparr>Rule.Name = ''tmp.rule'', program = NVar ''tmp'' (VInt64 1), scope = NewGlobalScope ()\<rparr>"

definition forgetful_twik :: "'s env \<Rightarrow> (sample_scope, sample_node, unit, 's world) twik" where
  "forgetful_twik E =
     (sample_twik E)\<lparr>Eval := (\<lambda>sc n w. case sample_Eval E sc n w of (r, sc', w') \<Rightarrow> (r, ([], None), w'))\<rparr>"

text \<open>The scope in which \<^verbatim>\<open>GlobalScope.Eval\<close> starts the evaluator.\<close>

definition child_scope :: "('sc, 'node, 'f, 'w) twik \<Rightarrow> 'f GlobalScope \<Rightarrow> 'sc" where
  "child_scope T s =
     Create T (Create T (Enclose T (NewDefaultScope T (fset s)) s) ''run'' (VFunc Builtin_run))
       ''log'' (VFunc Builtin_log)"

section \<open>Properties\<close>

subsection \<open>Unfolding sets for closed examples\<close>

lemmas sample_defs = sample_env_def kv_Get_def kv_Set_def sample_Unmarshal_def sample_text_def
  init_world_def GetManager_def varPrefix_def
lemmas vm_defs = VariableManager_Set_def VariableManager_Get_def store_read_def store_write_def cache_put_def chan_send_def
  unchanged_def json_Marshal_def int_decimal_def

subsection \<open>The branches of \<^verbatim>\<open>Get\<close> and \<^verbatim>\<open>Set\<close>\<close>

lemma Get_hit:
  "cache (manager w) name = Some v \<Longrightarrow> VariableManager_Get E name w = (Inr (Value v), w)"
  by (simp add: VariableManager_Get_def)

lemma Get_miss:
  "cache (manager w) name = None \<Longrightarrow>
   VariableManager_Get E name w =
     ((case store_Get E (store w) (varPrefix @ name) of
         Inl err \<Rightarrow> Inl (Error (''undefined symbol: '' @ name))
       | Inr b \<Rightarrow> json_Unmarshal E b),
      w\<lparr>trace := trace w @ [StoreGet (varPrefix @ name)]\<rparr>)"
  by (simp add: VariableManager_Get_def store_read_def split: sum.splits)

lemma Get_manager [simp]: "manager (snd (VariableManager_Get E name w)) = manager w"
  by (cases "cache (manager w) name") (simp_all add: Get_hit Get_miss)

lemma Get_store [simp]: "store (snd (VariableManager_Get E name w)) = store w"
  by (cases "cache (manager w) name") (simp_all add: Get_hit Get_miss)

lemma Get_trace:
  "trace (snd (VariableManager_Get E name w)) =
     trace w @ (case cache (manager w) name of Some v \<Rightarrow> [] | None \<Rightarrow> [StoreGet (varPrefix @ name)])"
  by (cases "cache (manager w) name") (simp_all add: Get_hit Get_miss)

text \<open>The result of a read depends on the cache and the store only.\<close>

lemma Get_result_cong:
  "manager w' = manager w \<Longrightarrow> store w' = store w \<Longrightarrow>
   fst (VariableManager_Get E name w') = fst (VariableManager_Get E name w)"
  by (cases "cache (manager w) name") (simp_all add: Get_hit Get_miss)

lemma Set_suppressed:
  "unchanged (fst (VariableManager_Get E name w)) v = Some True \<Longrightarrow>
   VariableManager_Set E name v w = (Returns None, snd (VariableManager_Get E name w))"
  by (cases "VariableManager_Get E name w") (simp add: VariableManager_Set_def)



lemma Set_effective:
  "unchanged (fst (VariableManager_Get E name w)) v = Some False \<Longrightarrow>
   json_Marshal (json_text E) \<lparr>Value.Name = name, Value = v\<rparr> = Inr b \<Longrightarrow>
   VariableManager_Set E name v w =
     (case store_write E (varPrefix @ name) b
             (chan_send \<lparr>Value.Name = name, Value = v\<rparr>
                (cache_put name \<lparr>Value.Name = name, Value = v\<rparr> (snd (VariableManager_Get E name w)))) of
        (err, w4) \<Rightarrow> (Returns err, w4))"
  by (cases "VariableManager_Get E name w") (simp add: VariableManager_Set_def Let_def)

lemma store_write_manager [simp]: "manager (snd (store_write E k b w)) = manager w"
  by (simp add: store_write_def split: prod.splits)

lemma store_write_trace [simp]: "trace (snd (store_write E k b w)) = trace w @ [StoreSet k b]"
  by (simp add: store_write_def split: prod.splits)

lemma Set_effective_manager:
  assumes "unchanged (fst (VariableManager_Get E name w)) v = Some False"
    and "json_Marshal (json_text E) \<lparr>Value.Name = name, Value = v\<rparr> = Inr b"
  shows "manager (snd (VariableManager_Set E name v w)) =
           \<lparr>Updates = Updates (manager w) @ [\<lparr>Value.Name = name, Value = v\<rparr>],
            cache = (cache (manager w))(name \<mapsto> \<lparr>Value.Name = name, Value = v\<rparr>)\<rparr>"
proof -
  let ?w3 = "chan_send \<lparr>Value.Name = name, Value = v\<rparr>
                (cache_put name \<lparr>Value.Name = name, Value = v\<rparr> (snd (VariableManager_Get E name w)))"
  have "snd (VariableManager_Set E name v w) = snd (store_write E (varPrefix @ name) b ?w3)"
    using assms by (simp add: Set_effective split: prod.splits)
  then have "manager (snd (VariableManager_Set E name v w)) = manager ?w3" by simp
  then show ?thesis by (simp add: chan_send_def cache_put_def)
qed

lemma Set_effective_trace:
  assumes "unchanged (fst (VariableManager_Get E name w)) v = Some False"
    and "json_Marshal (json_text E) \<lparr>Value.Name = name, Value = v\<rparr> = Inr b"
  shows "trace (snd (VariableManager_Set E name v w)) =
           trace (snd (VariableManager_Get E name w)) @
           [CachePut name \<lparr>Value.Name = name, Value = v\<rparr>, Send \<lparr>Value.Name = name, Value = v\<rparr>,
            StoreSet (varPrefix @ name) b]"
proof -
  let ?w3 = "chan_send \<lparr>Value.Name = name, Value = v\<rparr>
                (cache_put name \<lparr>Value.Name = name, Value = v\<rparr> (snd (VariableManager_Get E name w)))"
  have "snd (VariableManager_Set E name v w) = snd (store_write E (varPrefix @ name) b ?w3)"
    using assms by (simp add: Set_effective split: prod.splits)
  then have "trace (snd (VariableManager_Set E name v w)) = trace ?w3 @ [StoreSet (varPrefix @ name) b]" by simp
  then show ?thesis by (simp add: chan_send_def cache_put_def)
qed

text \<open>What an effective write returns and what it leaves in the store.\<close>

lemma Set_effective_store_state:
  assumes "unchanged (fst (VariableManager_Get E name w)) v = Some False"
    and "json_Marshal (json_text E) \<lparr>Value.Name = name, Value = v\<rparr> = Inr b"
  shows "fst (VariableManager_Set E name v w) =
           Returns (fst (store_Set E (store w) (varPrefix @ name) b)) \<and>
         store (snd (VariableManager_Set E name v w)) =
           snd (store_Set E (store w) (varPrefix @ name) b)"
proof -
  let ?w3 = "chan_send \<lparr>Value.Name = name, Value = v\<rparr>
                (cache_put name \<lparr>Value.Name = name, Value = v\<rparr> (snd (VariableManager_Get E name w)))"
  have s3: "store ?w3 = store w"
    by (simp add: chan_send_def cache_put_def)
  obtain r st' where st: "store_Set E (store w) (varPrefix @ name) b = (r, st')"
    by (cases "store_Set E (store w) (varPrefix @ name) b")
  then have "store_write E (varPrefix @ name) b ?w3 =
      (r, ?w3\<lparr>store := st', trace := trace ?w3 @ [StoreSet (varPrefix @ name) b]\<rparr>)"
    by (simp add: store_write_def s3)
  then have "VariableManager_Set E name v w =
      (Returns r, ?w3\<lparr>store := st', trace := trace ?w3 @ [StoreSet (varPrefix @ name) b]\<rparr>)"
    using assms by (simp add: Set_effective)
  then show ?thesis by (simp add: st)
qed

subsection \<open>Reading a variable\<close>

text \<open>
  C4. \<^verbatim>\<open>Get(name)\<close> looks in the cache first and returns the cached value on a hit, leaving
  the world as it is. On a miss it reads the store under \<^verbatim>\<open>var~\<close> followed by the name, once.
  If the store reports an error (a missing key among them) the result is the error
  \<^verbatim>\<open>undefined symbol: <name>\<close>; if the stored bytes do not decode, the result is the
  decoder's error; otherwise it is the decoded value.
\<close>

theorem VariableManager_Get_contract:
  "(\<forall>v. cache (manager w) name = Some v \<longrightarrow>
      VariableManager_Get E name w = (Inr (Value v), w)) \<and>
   (cache (manager w) name = None \<longrightarrow>
      trace (snd (VariableManager_Get E name w)) = trace w @ [StoreGet (''var~'' @ name)] \<and>
      (\<forall>e. store_Get E (store w) (''var~'' @ name) = Inl e \<longrightarrow>
         fst (VariableManager_Get E name w) = Inl (Error (''undefined symbol: '' @ name))) \<and>
      (\<forall>b e. store_Get E (store w) (''var~'' @ name) = Inr b \<and> json_Unmarshal E b = Inl e \<longrightarrow>
         fst (VariableManager_Get E name w) = Inl e) \<and>
      (\<forall>b v. store_Get E (store w) (''var~'' @ name) = Inr b \<and> json_Unmarshal E b = Inr v \<longrightarrow>
         fst (VariableManager_Get E name w) = Inr v))"
proof (intro conjI allI impI)
  fix v
  assume "cache (manager w) name = Some v"
  then show "VariableManager_Get E name w = (Inr (Value v), w)"
    by (rule Get_hit)
next
  assume miss: "cache (manager w) name = None"
  then show "trace (snd (VariableManager_Get E name w)) = trace w @ [StoreGet (''var~'' @ name)]"
    by (simp add: Get_miss varPrefix_def)
  {
    fix e
    assume "store_Get E (store w) (''var~'' @ name) = Inl e"
    with miss show "fst (VariableManager_Get E name w) = Inl (Error (''undefined symbol: '' @ name))"
      by (simp add: Get_miss varPrefix_def)
  }
  {
    fix b e
    assume "store_Get E (store w) (''var~'' @ name) = Inr b \<and> json_Unmarshal E b = Inl e"
    with miss show "fst (VariableManager_Get E name w) = Inl e"
      by (simp add: Get_miss varPrefix_def)
  }
  {
    fix b v
    assume "store_Get E (store w) (''var~'' @ name) = Inr b \<and> json_Unmarshal E b = Inr v"
    with miss show "fst (VariableManager_Get E name w) = Inr v"
      by (simp add: Get_miss varPrefix_def)
  }
qed


text \<open>
  The four branches on concrete worlds: a cached \<^verbatim>\<open>x\<close>, an empty store, a store holding
  bytes that do not decode, and a store holding \<^verbatim>\<open>{"value":true}\<close>.
\<close>

theorem VariableManager_Get_contract_witness:
  "VariableManager_Get sample_env ''x'' cached_x = (Inr (VInt64 7), cached_x) \<and>
   fst (VariableManager_Get sample_env ''x'' (init_world [])) = Inl (Error ''undefined symbol: x'') \<and>
   trace (snd (VariableManager_Get sample_env ''x'' (init_world []))) = [StoreGet ''var~x''] \<and>
   fst (VariableManager_Get sample_env ''x'' (init_world [(''var~x'', ''{'')])) = Inl (Error ''json: cannot decode'') \<and>
   fst (VariableManager_Get sample_env ''x'' (init_world [(''var~x'', ''{\"value\":true}'')])) = Inr (VBool True)"
proof -
  have c: "cache (manager cached_x) ''x'' = Some \<lparr>Value.Name = ''x'', Value = VInt64 7\<rparr>"
    by (simp add: cached_x_def)
  have m: "cache (manager (init_world st :: kv world)) ''x'' = None" for st
    by (simp add: init_world_def GetManager_def)
  have s1: "store_Get sample_env (store (init_world [] :: kv world)) (''var~'' @ ''x'') = Inl (Error ''NotFound'')"
    by (simp add: sample_defs)
  have s2: "store_Get sample_env (store (init_world [(''var~x'', ''{'')])) (''var~'' @ ''x'') = Inr ''{'' \<and>
            json_Unmarshal sample_env ''{'' = Inl (Error ''json: cannot decode'')"
    by (simp add: sample_defs)
  have s3: "store_Get sample_env (store (init_world [(''var~x'', ''{\"value\":true}'')])) (''var~'' @ ''x'') = Inr ''{\"value\":true}'' \<and>
            json_Unmarshal sample_env ''{\"value\":true}'' = Inr (VBool True)"
    by (simp add: sample_defs)
  show ?thesis
    using VariableManager_Get_contract [of cached_x "''x''" sample_env] c
      VariableManager_Get_contract [of "init_world []" "''x''" sample_env] m s1
      VariableManager_Get_contract [of "init_world [(''var~x'', ''{'')]" "''x''" sample_env] s2
      VariableManager_Get_contract [of "init_world [(''var~x'', ''{\"value\":true}'')]" "''x''" sample_env] s3
    by (simp add: init_world_def)
qed


subsection \<open>Writing a variable\<close>

lemma Set_effective_store:
  assumes "unchanged (fst (VariableManager_Get E name w)) v = Some False"
    and "json_Marshal (json_text E) \<lparr>Value.Name = name, Value = v\<rparr> = Inr b"
  shows "VariableManager_Get E name (snd (VariableManager_Set E name v w)) =
           (Inr v, snd (VariableManager_Set E name v w))"
proof -
  have "cache (manager (snd (VariableManager_Set E name v w))) name = Some \<lparr>Value.Name = name, Value = v\<rparr>"
    using assms by (simp add: Set_effective_manager)
  then show ?thesis by (simp add: Get_hit)
qed







text \<open>
  Persist-then-notify does not hold of the code. Setting \<^verbatim>\<open>x\<close> to 1 in a fresh world reads
  the store, writes the cache, hands the event over and only then writes the store: when the
  event is handed over, no key has been written yet.
\<close>

theorem Set_notifies_before_persisting_counterexample:
  "fst (VariableManager_Set sample_env ''x'' (VInt64 1) (init_world [])) = Returns None \<and>
   effects_since (init_world []) (snd (VariableManager_Set sample_env ''x'' (VInt64 1) (init_world []))) =
     [StoreGet ''var~x'', CachePut ''x'' \<lparr>Value.Name = ''x'', Value = VInt64 1\<rparr>,
      Send \<lparr>Value.Name = ''x'', Value = VInt64 1\<rparr>, StoreSet ''var~x'' ''{\"value\":1}''] \<and>
   \<not> persisted_before_notified []
       (effects_since (init_world []) (snd (VariableManager_Set sample_env ''x'' (VInt64 1) (init_world []))))"
  by (simp add: sample_defs vm_defs effects_since_def)

text \<open>
  C1, amended. For every effective call \<^verbatim>\<open>Set(name, value)\<close> (the value differs from the
  current one and serialises to \<open>b\<close>), the cache entry is written first, the change event
  is handed to the queue next, and the store is written last: \<^verbatim>\<open>Set\<close> is the store write
  applied to the world of the hand-off. In that world the store is still what it was before
  the call, the queue has received exactly the new event, and \<^verbatim>\<open>Get(name)\<close> already returns
  the new value, from the cache. The effects of the call are, in this order, the store read
  of \<^verbatim>\<open>Get\<close> (on a cache miss), the cache write, the send and the store write; so the
  send is not preceded by the store write. When \<^verbatim>\<open>Set\<close> has returned, the store is what
  \<^verbatim>\<open>store.Set\<close> made of the store from before the call, given the key \<^verbatim>\<open>var~\<close> followed by
  the name and the bytes \<open>b\<close>, and \<^verbatim>\<open>Set\<close> returns what \<^verbatim>\<open>store.Set\<close> returned.
\<close>

theorem Set_cache_notify_persist:
  assumes "unchanged (fst (VariableManager_Get E name w)) v = Some False"
    and "json_Marshal (json_text E) \<lparr>Value.Name = name, Value = v\<rparr> = Inr b"
  shows "VariableManager_Set E name v w =
           (case store_write E (''var~'' @ name) b (handoff name v (snd (VariableManager_Get E name w))) of
              (err, w4) \<Rightarrow> (Returns err, w4)) \<and>
         store (handoff name v (snd (VariableManager_Get E name w))) = store w \<and>
         Updates (manager (handoff name v (snd (VariableManager_Get E name w)))) =
           Updates (manager w) @ [\<lparr>Value.Name = name, Value = v\<rparr>] \<and>
         VariableManager_Get E name (handoff name v (snd (VariableManager_Get E name w))) =
           (Inr v, handoff name v (snd (VariableManager_Get E name w))) \<and>
         effects_since w (snd (VariableManager_Set E name v w)) =
           (case cache (manager w) name of Some c \<Rightarrow> [] | None \<Rightarrow> [StoreGet (''var~'' @ name)]) @
           [CachePut name \<lparr>Value.Name = name, Value = v\<rparr>, Send \<lparr>Value.Name = name, Value = v\<rparr>,
            StoreSet (''var~'' @ name) b] \<and>
         \<not> persisted_before_notified [] (effects_since w (snd (VariableManager_Set E name v w))) \<and>
         store (snd (VariableManager_Set E name v w)) =
           snd (store_Set E (store w) (''var~'' @ name) b) \<and>
         fst (VariableManager_Set E name v w) =
           Returns (fst (store_Set E (store w) (''var~'' @ name) b))"
proof -
  let ?V = "\<lparr>Value.Name = name, Value = v\<rparr>"
  let ?w1 = "snd (VariableManager_Get E name w)"
  let ?w3 = "handoff name v ?w1"
  have st: "store (snd (VariableManager_Set E name v w)) =
              snd (store_Set E (store w) (''var~'' @ name) b)"
    and rt: "fst (VariableManager_Set E name v w) =
              Returns (fst (store_Set E (store w) (''var~'' @ name) b))"
    using Set_effective_store_state [OF assms] by (simp_all add: varPrefix_def)
  have u3: "Updates (manager ?w3) = Updates (manager w) @ [?V]"
    by (simp add: handoff_def chan_send_def cache_put_def)
  have s3: "store ?w3 = store w"
    by (simp add: handoff_def chan_send_def cache_put_def)
  have "cache (manager ?w3) name = Some ?V"
    by (simp add: handoff_def chan_send_def cache_put_def)
  then have g3: "VariableManager_Get E name ?w3 = (Inr v, ?w3)"
    by (simp add: Get_hit)
  have set: "VariableManager_Set E name v w =
               (case store_write E (''var~'' @ name) b ?w3 of (err, w4) \<Rightarrow> (Returns err, w4))"
    using assms by (simp add: Set_effective varPrefix_def handoff_def)
  have t4: "trace (snd (VariableManager_Set E name v w)) =
              trace ?w1 @ [CachePut name ?V, Send ?V, StoreSet (''var~'' @ name) b]"
    using assms by (simp add: Set_effective_trace varPrefix_def)
  have e: "effects_since w (snd (VariableManager_Set E name v w)) =
          (case cache (manager w) name of Some c \<Rightarrow> [] | None \<Rightarrow> [StoreGet (''var~'' @ name)]) @
          [CachePut name ?V, Send ?V, StoreSet (''var~'' @ name) b]"
    by (simp add: effects_since_def t4 Get_trace varPrefix_def split: option.splits)
  have n: "\<not> persisted_before_notified [] (effects_since w (snd (VariableManager_Set E name v w)))"
    unfolding e by (simp split: option.splits)
  from set s3 u3 g3 e n st rt show ?thesis by (intro conjI)
qed

text \<open>
  The same on \<^verbatim>\<open>Set("x", 1)\<close> in a fresh world: the store is empty at the hand-off and
  holds the record under \<^verbatim>\<open>var~x\<close> when \<^verbatim>\<open>Set\<close> has returned.
\<close>

theorem Set_cache_notify_persist_witness:
  "store (handoff ''x'' (VInt64 1) (snd (VariableManager_Get sample_env ''x'' (init_world [])))) = [] \<and>
   Updates (manager (handoff ''x'' (VInt64 1) (snd (VariableManager_Get sample_env ''x'' (init_world []))))) =
     [\<lparr>Value.Name = ''x'', Value = VInt64 1\<rparr>] \<and>
   fst (VariableManager_Get sample_env ''x''
          (handoff ''x'' (VInt64 1) (snd (VariableManager_Get sample_env ''x'' (init_world []))))) =
     Inr (VInt64 1) \<and>
   effects_since (init_world []) (snd (VariableManager_Set sample_env ''x'' (VInt64 1) (init_world []))) =
     [StoreGet ''var~x'', CachePut ''x'' \<lparr>Value.Name = ''x'', Value = VInt64 1\<rparr>,
      Send \<lparr>Value.Name = ''x'', Value = VInt64 1\<rparr>, StoreSet ''var~x'' ''{\"value\":1}''] \<and>
   store (snd (VariableManager_Set sample_env ''x'' (VInt64 1) (init_world []))) =
     [(''var~x'', ''{\"value\":1}'')] \<and>
   fst (VariableManager_Set sample_env ''x'' (VInt64 1) (init_world [])) = Returns None"
proof -
  have a: "unchanged (fst (VariableManager_Get sample_env ''x'' (init_world []))) (VInt64 1) = Some False"
    by (simp add: sample_defs vm_defs)
  have b: "json_Marshal (json_text sample_env) \<lparr>Value.Name = ''x'', Value = VInt64 1\<rparr> = Inr ''{\"value\":1}''"
    by (simp add: sample_defs vm_defs)
  have c: "cache (manager (init_world [] :: kv world)) ''x'' = None"
      "store (init_world [] :: kv world) = []" "Updates (manager (init_world [] :: kv world)) = []"
    by (simp_all add: init_world_def GetManager_def)
  have k: "store_Set sample_env [] ''var~x'' ''{\"value\":1}'' =
             (None, [(''var~x'', ''{\"value\":1}'')])"
    by (simp add: sample_env_def kv_Set_def)
  note h = Set_cache_notify_persist [OF a b]
  note h2 = h [THEN conjunct2, THEN conjunct1]
  note h3 = h [THEN conjunct2, THEN conjunct2, THEN conjunct1]
  note h4 = h [THEN conjunct2, THEN conjunct2, THEN conjunct2, THEN conjunct1]
  note h5 = h [THEN conjunct2, THEN conjunct2, THEN conjunct2, THEN conjunct2, THEN conjunct1]
  note h7 = h [THEN conjunct2, THEN conjunct2, THEN conjunct2, THEN conjunct2, THEN conjunct2,
      THEN conjunct2, THEN conjunct1]
  note h8 = h [THEN conjunct2, THEN conjunct2, THEN conjunct2, THEN conjunct2, THEN conjunct2,
      THEN conjunct2, THEN conjunct2]
  show ?thesis
    using h2 h3 h4 h5 h7 h8 by (simp add: c k)
qed





text \<open>
  A read after a successful write is not always a cache hit. After a restart the store holds
  \<^verbatim>\<open>x = true\<close> and the cache is empty: \<^verbatim>\<open>Set("x", true)\<close> is suppressed and returns ok
  without filling the cache, and the following \<^verbatim>\<open>Get("x")\<close> goes to the store.
\<close>

theorem Get_after_suppressed_Set_reads_store_counterexample:
  "fst (VariableManager_Set sample_env ''x'' (VBool True) restarted_x) = Returns None \<and>
   cache (manager (snd (VariableManager_Set sample_env ''x'' (VBool True) restarted_x))) ''x'' = None \<and>
   fst (VariableManager_Get sample_env ''x''
          (snd (VariableManager_Set sample_env ''x'' (VBool True) restarted_x))) = Inr (VBool True) \<and>
   effects_since (snd (VariableManager_Set sample_env ''x'' (VBool True) restarted_x))
     (snd (VariableManager_Get sample_env ''x''
            (snd (VariableManager_Set sample_env ''x'' (VBool True) restarted_x)))) =
     [StoreGet ''var~x'']"
  by (simp add: sample_defs vm_defs restarted_x_def effects_since_def)

text \<open>
  C3, amended. After an effective \<^verbatim>\<open>Set(name, v)\<close> (not suppressed, \<open>v\<close> serialises),
  whatever the store write reported, \<^verbatim>\<open>Get(name)\<close> returns \<open>v\<close> and leaves the world as it
  is: a cache hit with no store read. After a suppressed \<^verbatim>\<open>Set(name, v)\<close>, \<^verbatim>\<open>Get(name)\<close>
  returns a value that compares equal to \<open>v\<close>; it is a cache hit when the name was cached
  before the call, and it reads the store again, once, when the name was not cached.
\<close>

theorem Get_after_Set:
  "(\<forall>b. unchanged (fst (VariableManager_Get E name w)) v = Some False \<and>
        json_Marshal (json_text E) \<lparr>Value.Name = name, Value = v\<rparr> = Inr b \<longrightarrow>
        VariableManager_Get E name (snd (VariableManager_Set E name v w)) =
          (Inr v, snd (VariableManager_Set E name v w))) \<and>
   (unchanged (fst (VariableManager_Get E name w)) v = Some True \<longrightarrow>
      (\<exists>old. fst (VariableManager_Get E name (snd (VariableManager_Set E name v w))) = Inr old \<and>
             go_eq old v = Some True) \<and>
      (\<forall>c. cache (manager w) name = Some c \<longrightarrow>
         VariableManager_Get E name (snd (VariableManager_Set E name v w)) =
           (Inr (Value c), snd (VariableManager_Set E name v w))) \<and>
      (cache (manager w) name = None \<longrightarrow>
         effects_since (snd (VariableManager_Set E name v w))
           (snd (VariableManager_Get E name (snd (VariableManager_Set E name v w)))) =
           [StoreGet (''var~'' @ name)]))"
proof (intro conjI impI allI)
  fix b
  assume "unchanged (fst (VariableManager_Get E name w)) v = Some False \<and>
        json_Marshal (json_text E) \<lparr>Value.Name = name, Value = v\<rparr> = Inr b"
  then show "VariableManager_Get E name (snd (VariableManager_Set E name v w)) =
          (Inr v, snd (VariableManager_Set E name v w))"
    by (simp add: Set_effective_store)
next
  assume s: "unchanged (fst (VariableManager_Get E name w)) v = Some True"
  then have eq: "snd (VariableManager_Set E name v w) = snd (VariableManager_Get E name w)"
    by (simp add: Set_suppressed)
  have same: "fst (VariableManager_Get E name (snd (VariableManager_Get E name w))) =
              fst (VariableManager_Get E name w)"
    by (rule Get_result_cong) simp_all
  from s obtain old where "fst (VariableManager_Get E name w) = Inr old" "go_eq old v = Some True"
    by (cases "fst (VariableManager_Get E name w)") (simp_all add: unchanged_def)
  then show "\<exists>old. fst (VariableManager_Get E name (snd (VariableManager_Set E name v w))) = Inr old \<and>
             go_eq old v = Some True"
    by (simp add: eq same)
next
  fix c
  assume s: "unchanged (fst (VariableManager_Get E name w)) v = Some True"
    and c: "cache (manager w) name = Some c"
  from s have eq: "snd (VariableManager_Set E name v w) = snd (VariableManager_Get E name w)"
    by (simp add: Set_suppressed)
  from c have "VariableManager_Get E name w = (Inr (Value c), w)" by (rule Get_hit)
  with c show "VariableManager_Get E name (snd (VariableManager_Set E name v w)) =
           (Inr (Value c), snd (VariableManager_Set E name v w))"
    by (simp add: eq)
next
  assume s: "unchanged (fst (VariableManager_Get E name w)) v = Some True"
    and c: "cache (manager w) name = None"
  from s have eq: "snd (VariableManager_Set E name v w) = snd (VariableManager_Get E name w)"
    by (simp add: Set_suppressed)
  let ?w1 = "snd (VariableManager_Get E name w)"
  from c have "cache (manager ?w1) name = None" by simp
  then have "trace (snd (VariableManager_Get E name ?w1)) = trace ?w1 @ [StoreGet (varPrefix @ name)]"
    by (simp add: Get_trace)
  then show "effects_since (snd (VariableManager_Set E name v w))
           (snd (VariableManager_Get E name (snd (VariableManager_Set E name v w)))) =
           [StoreGet (''var~'' @ name)]"
    by (simp add: eq effects_since_def varPrefix_def)
qed

text \<open>
  On concrete calls: an effective write, an effective write whose store write fails, a
  suppressed write on an empty cache, and a suppressed write on a cached name.
\<close>

theorem Get_after_Set_witness:
  "VariableManager_Get sample_env ''x'' (snd (VariableManager_Set sample_env ''x'' (VInt64 1) (init_world []))) =
     (Inr (VInt64 1), snd (VariableManager_Set sample_env ''x'' (VInt64 1) (init_world []))) \<and>
   VariableManager_Get down_env ''x'' (snd (VariableManager_Set down_env ''x'' (VInt64 1) (init_world []))) =
     (Inr (VInt64 1), snd (VariableManager_Set down_env ''x'' (VInt64 1) (init_world []))) \<and>
   fst (VariableManager_Set down_env ''x'' (VInt64 1) (init_world [])) =
     Returns (Some (Error ''store: write failed'')) \<and>
   (\<exists>old. fst (VariableManager_Get sample_env ''x''
                 (snd (VariableManager_Set sample_env ''x'' (VBool True) restarted_x))) = Inr old \<and>
          go_eq old (VBool True) = Some True) \<and>
   VariableManager_Get sample_env ''x'' (snd (VariableManager_Set sample_env ''x'' (VInt64 7) cached_x)) =
     (Inr (VInt64 7), snd (VariableManager_Set sample_env ''x'' (VInt64 7) cached_x)) \<and>
   effects_since (snd (VariableManager_Set sample_env ''x'' (VBool True) restarted_x))
     (snd (VariableManager_Get sample_env ''x''
            (snd (VariableManager_Set sample_env ''x'' (VBool True) restarted_x)))) =
     [StoreGet ''var~x'']"
proof -
  let ?w0 = "init_world [] :: kv world"
  have miss: "cache (manager restarted_x) ''x'' = None"
    by (simp add: restarted_x_def init_world_def GetManager_def)
  have new1: "unchanged (fst (VariableManager_Get sample_env ''x'' ?w0)) (VInt64 1) = Some False \<and>
      json_Marshal (json_text sample_env) \<lparr>Value.Name = ''x'', Value = VInt64 1\<rparr> = Inr ''{\"value\":1}''"
    by (simp add: sample_defs vm_defs)
  have new2: "unchanged (fst (VariableManager_Get down_env ''x'' ?w0)) (VInt64 1) = Some False \<and>
      json_Marshal (json_text down_env) \<lparr>Value.Name = ''x'', Value = VInt64 1\<rparr> = Inr ''{\"value\":1}''"
    by (simp add: down_env_def down_Set_def sample_defs vm_defs)
  have down: "fst (VariableManager_Set down_env ''x'' (VInt64 1) ?w0) =
     Returns (Some (Error ''store: write failed''))"
    by (simp add: down_env_def down_Set_def sample_defs vm_defs)
  have same: "unchanged (fst (VariableManager_Get sample_env ''x'' restarted_x)) (VBool True) = Some True"
    by (simp add: sample_defs vm_defs restarted_x_def)
  have same7: "unchanged (fst (VariableManager_Get sample_env ''x'' cached_x)) (VInt64 7) = Some True"
    by (simp add: sample_defs vm_defs cached_x_def)
  have c7: "cache (manager cached_x) ''x'' = Some \<lparr>Value.Name = ''x'', Value = VInt64 7\<rparr>"
    by (simp add: cached_x_def)
  note a = Get_after_Set [where E = sample_env and name = "''x''" and w = ?w0 and v = "VInt64 1",
      THEN conjunct1, rule_format, OF new1]
  note b = Get_after_Set [where E = down_env and name = "''x''" and w = ?w0 and v = "VInt64 1",
      THEN conjunct1, rule_format, OF new2]
  note c = Get_after_Set [where E = sample_env and name = "''x''" and w = restarted_x and v = "VBool True",
      THEN conjunct2, rule_format, OF same, THEN conjunct1]
  note d = Get_after_Set [where E = sample_env and name = "''x''" and w = cached_x and v = "VInt64 7",
      THEN conjunct2, rule_format, OF same7, THEN conjunct2, THEN conjunct1, rule_format, OF c7]
  note e = Get_after_Set [where E = sample_env and name = "''x''" and w = restarted_x and v = "VBool True",
      THEN conjunct2, rule_format, OF same, THEN conjunct2, THEN conjunct2, rule_format, OF miss]
  from d have d': "VariableManager_Get sample_env ''x'' (snd (VariableManager_Set sample_env ''x'' (VInt64 7) cached_x)) =
     (Inr (VInt64 7), snd (VariableManager_Set sample_env ''x'' (VInt64 7) cached_x))"
    by simp
  from e have e': "effects_since (snd (VariableManager_Set sample_env ''x'' (VBool True) restarted_x))
     (snd (VariableManager_Get sample_env ''x''
            (snd (VariableManager_Set sample_env ''x'' (VBool True) restarted_x)))) =
     [StoreGet ''var~x'']"
    by simp
  from a b down c d' e' show ?thesis by (intro conjI)
qed

text \<open>
  C8. For every effective \<^verbatim>\<open>Set(name, v)\<close>, where \<open>p\<close> is the JSON text of \<open>v\<close>: the bytes
  written to the store are the object \<^verbatim>\<open>{"value":p}\<close> with the one field \<^verbatim>\<open>value\<close>; they
  are the same for every variable name, the name being carried by the storage key alone, which
  is \<^verbatim>\<open>var~\<close> followed by the name; and the event handed to the queue, like the cache
  entry, carries the name as the caller gave it. When \<^verbatim>\<open>Set\<close> has returned, the store is
  what \<^verbatim>\<open>store.Set\<close> made of the store from before the call, given that key and those
  bytes, and \<^verbatim>\<open>Set\<close> returns what \<^verbatim>\<open>store.Set\<close> returned.
\<close>

theorem Set_persists_value_record_under_prefixed_key:
  assumes "unchanged (fst (VariableManager_Get E name w)) v = Some False"
    and "json_payload (json_text E) v = Inr p"
  shows "effects_since w (snd (VariableManager_Set E name v w)) =
           (case cache (manager w) name of Some c \<Rightarrow> [] | None \<Rightarrow> [StoreGet (''var~'' @ name)]) @
           [CachePut name \<lparr>Value.Name = name, Value = v\<rparr>, Send \<lparr>Value.Name = name, Value = v\<rparr>,
            StoreSet (''var~'' @ name) (''{\"value\":'' @ p @ ''}'')] \<and>
         Updates (manager (snd (VariableManager_Set E name v w))) =
           Updates (manager w) @ [\<lparr>Value.Name = name, Value = v\<rparr>] \<and>
         (\<forall>other. json_Marshal (json_text E) \<lparr>Value.Name = other, Value = v\<rparr> =
                    Inr (''{\"value\":'' @ p @ ''}'')) \<and>
         store (snd (VariableManager_Set E name v w)) =
           snd (store_Set E (store w) (''var~'' @ name) (''{\"value\":'' @ p @ ''}'')) \<and>
         fst (VariableManager_Set E name v w) =
           Returns (fst (store_Set E (store w) (''var~'' @ name) (''{\"value\":'' @ p @ ''}'')))"
proof -
  have m: "json_Marshal (json_text E) \<lparr>Value.Name = n, Value = v\<rparr> = Inr (''{\"value\":'' @ p @ ''}'')" for n
    using assms(2) by (simp add: json_Marshal_def)
  have t: "trace (snd (VariableManager_Set E name v w)) =
           trace (snd (VariableManager_Get E name w)) @
           [CachePut name \<lparr>Value.Name = name, Value = v\<rparr>, Send \<lparr>Value.Name = name, Value = v\<rparr>,
            StoreSet (varPrefix @ name) (''{\"value\":'' @ p @ ''}'')]"
    using assms(1) m by (rule Set_effective_trace)
  have e: "effects_since w (snd (VariableManager_Set E name v w)) =
           (case cache (manager w) name of Some c \<Rightarrow> [] | None \<Rightarrow> [StoreGet (''var~'' @ name)]) @
           [CachePut name \<lparr>Value.Name = name, Value = v\<rparr>, Send \<lparr>Value.Name = name, Value = v\<rparr>,
            StoreSet (''var~'' @ name) (''{\"value\":'' @ p @ ''}'')]"
    by (simp add: effects_since_def t Get_trace varPrefix_def split: option.splits)
  have u: "Updates (manager (snd (VariableManager_Set E name v w))) =
           Updates (manager w) @ [\<lparr>Value.Name = name, Value = v\<rparr>]"
    using assms(1) m by (simp add: Set_effective_manager)
  have st: "store (snd (VariableManager_Set E name v w)) =
           snd (store_Set E (store w) (''var~'' @ name) (''{\"value\":'' @ p @ ''}''))"
    and rt: "fst (VariableManager_Set E name v w) =
           Returns (fst (store_Set E (store w) (''var~'' @ name) (''{\"value\":'' @ p @ ''}'')))"
    using Set_effective_store_state [OF assms(1) m] by (simp_all add: varPrefix_def)
  have m': "\<forall>other. json_Marshal (json_text E) \<lparr>Value.Name = other, Value = v\<rparr> =
                    Inr (''{\"value\":'' @ p @ ''}'')"
    using m by simp
  from e u m' st rt show ?thesis by (intro conjI)
qed

text \<open>
  The clock's write of \<^verbatim>\<open>time:second = 59\<close> in a fresh world: afterwards the store holds
  the record under the prefixed key, and reading that key gives the bytes back.
\<close>

theorem Set_persists_value_record_under_prefixed_key_witness:
  "effects_since (init_world [])
     (snd (VariableManager_Set sample_env ''time:second'' (VInt64 59) (init_world []))) =
     [StoreGet ''var~time:second'',
      CachePut ''time:second'' \<lparr>Value.Name = ''time:second'', Value = VInt64 59\<rparr>,
      Send \<lparr>Value.Name = ''time:second'', Value = VInt64 59\<rparr>,
      StoreSet ''var~time:second'' ''{\"value\":59}''] \<and>
   Updates (manager (snd (VariableManager_Set sample_env ''time:second'' (VInt64 59) (init_world [])))) =
     [\<lparr>Value.Name = ''time:second'', Value = VInt64 59\<rparr>] \<and>
   store (snd (VariableManager_Set sample_env ''time:second'' (VInt64 59) (init_world []))) =
     [(''var~time:second'', ''{\"value\":59}'')] \<and>
   store_Get sample_env
     (store (snd (VariableManager_Set sample_env ''time:second'' (VInt64 59) (init_world []))))
     ''var~time:second'' = Inr ''{\"value\":59}'' \<and>
   fst (VariableManager_Set sample_env ''time:second'' (VInt64 59) (init_world [])) = Returns None"
proof -
  let ?w0 = "init_world [] :: kv world"
  have a: "unchanged (fst (VariableManager_Get sample_env ''time:second'' ?w0)) (VInt64 59) = Some False"
    by (simp add: sample_defs vm_defs)
  have b: "json_payload (json_text sample_env) (VInt64 59) = Inr ''59''"
    by (simp add: int_decimal_def)
  have c: "cache (manager ?w0) ''time:second'' = None" "Updates (manager ?w0) = []"
    by (simp_all add: init_world_def GetManager_def)
  have k: "store_Set sample_env (store ?w0) (''var~'' @ ''time:second'') (''{\"value\":'' @ ''59'' @ ''}'') =
             (None, [(''var~time:second'', ''{\"value\":59}'')])"
    by (simp add: sample_env_def kv_Set_def init_world_def)
  have g: "store_Get sample_env [(''var~time:second'', ''{\"value\":59}'')] ''var~time:second'' =
             Inr ''{\"value\":59}''"
    by (simp add: sample_env_def kv_Get_def)
  note h = Set_persists_value_record_under_prefixed_key [OF a b]
  note h1 = h [THEN conjunct1]
  note h2 = h [THEN conjunct2, THEN conjunct1]
  note h4 = h [THEN conjunct2, THEN conjunct2, THEN conjunct2, THEN conjunct1]
  note h5 = h [THEN conjunct2, THEN conjunct2, THEN conjunct2, THEN conjunct2]
  from h4 have s4: "store (snd (VariableManager_Set sample_env ''time:second'' (VInt64 59) ?w0)) =
     [(''var~time:second'', ''{\"value\":59}'')]"
    by (simp only: k snd_conv)
  from h5 have r5: "fst (VariableManager_Set sample_env ''time:second'' (VInt64 59) ?w0) = Returns None"
    by (simp only: k fst_conv)
  from h1 h2 have e12: "effects_since ?w0
     (snd (VariableManager_Set sample_env ''time:second'' (VInt64 59) ?w0)) =
     [StoreGet ''var~time:second'',
      CachePut ''time:second'' \<lparr>Value.Name = ''time:second'', Value = VInt64 59\<rparr>,
      Send \<lparr>Value.Name = ''time:second'', Value = VInt64 59\<rparr>,
      StoreSet ''var~time:second'' ''{\"value\":59}''] \<and>
   Updates (manager (snd (VariableManager_Set sample_env ''time:second'' (VInt64 59) ?w0))) =
     [\<lparr>Value.Name = ''time:second'', Value = VInt64 59\<rparr>]"
    by (simp add: c)
  from e12 s4 g r5 show ?thesis by (simp only: simp_thms)
qed

subsection \<open>The built-in callables\<close>

lemma run_commands_strings: "run_commands (map VStr ss) acc = Inr (acc @ ss)"
  by (induction ss arbitrary: acc) simp_all

lemma run_commands_other:
  "\<exists>a \<in> set args. \<forall>s. a \<noteq> VStr s \<Longrightarrow>
   run_commands args acc = Inl (Error ''run only takes string arguments'')"
  by (induction args acc rule: run_commands.induct) auto

lemma all_strings_map: "\<forall>a \<in> set args. \<exists>s. a = VStr s \<Longrightarrow> \<exists>ss. args = map VStr ss"
proof (induction args)
  case Nil
  then show ?case by simp
next
  case (Cons a args)
  then obtain s ss where "a = VStr s" "args = map VStr ss" by auto
  then have "a # args = map VStr (s # ss)" by simp
  then show ?case by (rule exI)
qed

lemma runFn_strings:
  assumes "ss \<noteq> []"
  shows "runFn E (map VStr ss) w = (Returns (Inr VNil), w\<lparr>trace := trace w @ [Exec ss]\<rparr>)"
proof -
  obtain c rest where ss: "ss = c # rest" using assms by (cases ss) auto
  show ?thesis
    unfolding ss
    by (auto simp: runFn_def run_commands_strings exec_Command_def cmd_Run_def Let_def
          split: option.splits)
qed

text \<open>
  C5. \<^verbatim>\<open>run\<close> with no argument fails with an error; with an argument that is not a string
  it fails with the argument-type error; with one or more arguments that are all strings it
  returns nil and no error, whatever the host reports for the command (it never panics on
  \<^verbatim>\<open>commands[0]\<close>), and the command line it runs is the arguments in order.
\<close>

theorem runFn_contract:
  "(args = [] \<longrightarrow>
      runFn E args w = (Returns (Inl (Error ''run takes at least one argument'')), w)) \<and>
   (args \<noteq> [] \<and> (\<exists>a \<in> set args. \<forall>s. a \<noteq> VStr s) \<longrightarrow>
      runFn E args w = (Returns (Inl (Error ''run only takes string arguments'')), w)) \<and>
   (args \<noteq> [] \<and> (\<forall>a \<in> set args. \<exists>s. a = VStr s) \<longrightarrow>
      fst (runFn E args w) = Returns (Inr VNil)) \<and>
   (\<forall>ss. ss \<noteq> [] \<and> args = map VStr ss \<longrightarrow>
      effects_since w (snd (runFn E args w)) = [Exec ss])"
proof (intro conjI impI allI)
  assume "args = []"
  then show "runFn E args w = (Returns (Inl (Error ''run takes at least one argument'')), w)"
    by (simp add: runFn_def)
next
  assume a: "args \<noteq> [] \<and> (\<exists>a \<in> set args. \<forall>s. a \<noteq> VStr s)"
  then have "run_commands args [] = Inl (Error ''run only takes string arguments'')"
    by (simp add: run_commands_other)
  with a show "runFn E args w = (Returns (Inl (Error ''run only takes string arguments'')), w)"
    by (simp add: runFn_def)
next
  assume a: "args \<noteq> [] \<and> (\<forall>a \<in> set args. \<exists>s. a = VStr s)"
  then obtain ss where "args = map VStr ss" using all_strings_map by blast
  with a show "fst (runFn E args w) = Returns (Inr VNil)"
    by (simp add: runFn_strings)
next
  fix ss
  assume "ss \<noteq> [] \<and> args = map VStr ss"
  then show "effects_since w (snd (runFn E args w)) = [Exec ss]"
    by (simp add: runFn_strings effects_since_def)
qed

text \<open>
  \<^verbatim>\<open>run()\<close>, \<^verbatim>\<open>run("ls", 1)\<close>, and \<^verbatim>\<open>run("echo", "hello")\<close> on a host where nothing can be
  started and on one where every command succeeds.
\<close>

theorem runFn_contract_witness:
  "runFn no_exec_env [] (init_world []) =
     (Returns (Inl (Error ''run takes at least one argument'')), init_world []) \<and>
   runFn no_exec_env [VStr ''ls'', VInt64 1] (init_world []) =
     (Returns (Inl (Error ''run only takes string arguments'')), init_world []) \<and>
   exec_Run no_exec_env [''echo'', ''hello''] = Some (Error ''exec: executable file not found in $PATH'') \<and>
   fst (runFn no_exec_env [VStr ''echo'', VStr ''hello''] (init_world [])) = Returns (Inr VNil) \<and>
   fst (runFn sample_env [VStr ''echo'', VStr ''hello''] (init_world [])) = Returns (Inr VNil) \<and>
   effects_since (init_world []) (snd (runFn no_exec_env [VStr ''echo'', VStr ''hello''] (init_world []))) =
     [Exec [''echo'', ''hello'']]"
proof -
  let ?w0 = "init_world [] :: kv world"
  have a: "[VStr ''ls'', VInt64 1] \<noteq> [] \<and> (\<exists>a \<in> set [VStr ''ls'', VInt64 1]. \<forall>s. a \<noteq> VStr s)"
    by simp
  have b: "[VStr ''echo'', VStr ''hello''] \<noteq> [] \<and>
           (\<forall>a \<in> set [VStr ''echo'', VStr ''hello'']. \<exists>s. a = VStr s)"
    by simp
  have c: "[''echo'', ''hello''] \<noteq> [] \<and> [VStr ''echo'', VStr ''hello''] = map VStr [''echo'', ''hello'']"
    by simp
  have d: "exec_Run no_exec_env [''echo'', ''hello''] = Some (Error ''exec: executable file not found in $PATH'')"
    by (simp add: no_exec_env_def)
  note t1 = runFn_contract [where args = "[]" and E = no_exec_env and w = ?w0, THEN conjunct1, rule_format, OF refl]
  note t2 = runFn_contract [where args = "[VStr ''ls'', VInt64 1]" and E = no_exec_env and w = ?w0,
      THEN conjunct2, THEN conjunct1, rule_format, OF a]
  note t3 = runFn_contract [where args = "[VStr ''echo'', VStr ''hello'']" and E = no_exec_env and w = ?w0,
      THEN conjunct2, THEN conjunct2, THEN conjunct1, rule_format, OF b]
  note t4 = runFn_contract [where args = "[VStr ''echo'', VStr ''hello'']" and E = sample_env and w = ?w0,
      THEN conjunct2, THEN conjunct2, THEN conjunct1, rule_format, OF b]
  note t5 = runFn_contract [where args = "[VStr ''echo'', VStr ''hello'']" and E = no_exec_env and w = ?w0,
      THEN conjunct2, THEN conjunct2, THEN conjunct2, rule_format, OF c]
  from t1 t2 d t3 t4 t5 show ?thesis by (intro conjI)
qed

text \<open>
  C6. \<^verbatim>\<open>log\<close> called with a single string argument writes it to the log and returns nil;
  every other call (an argument that is not a string, or a number of arguments other than
  one) fails with the error \<^verbatim>\<open>log function takes a single string argument\<close> and writes
  nothing; so it succeeds exactly when called with a single string argument.
\<close>

theorem logFn_contract:
  "(\<forall>s. args = [VStr s] \<longrightarrow> logFn args w = (Inr VNil, log_Println s w)) \<and>
   ((\<forall>s. args \<noteq> [VStr s]) \<longrightarrow>
      logFn args w = (Inl (Error ''log function takes a single string argument''), w)) \<and>
   ((\<exists>r. fst (logFn args w) = Inr r) = (\<exists>s. args = [VStr s]))"
proof -
  have ok: "logFn [VStr s] w = (Inr VNil, log_Println s w)" for s
    by (simp add: logFn_def)
  have bad: "logFn args w = (Inl (Error ''log function takes a single string argument''), w)"
    if "\<forall>s. args \<noteq> [VStr s]"
  proof (cases args)
    case Nil
    then show ?thesis by (simp add: logFn_def)
  next
    case (Cons a rest)
    show ?thesis
    proof (cases rest)
      case Nil
      with Cons that have "\<forall>s. a \<noteq> VStr s" by simp
      with Cons Nil show ?thesis by (cases a) (simp_all add: logFn_def)
    next
      case (Cons b rest')
      with \<open>args = a # rest\<close> show ?thesis by (simp add: logFn_def)
    qed
  qed
  have iff: "(\<exists>r. fst (logFn args w) = Inr r) = (\<exists>s. args = [VStr s])"
  proof (cases "\<exists>s. args = [VStr s]")
    case True
    then show ?thesis using ok by auto
  next
    case False
    then show ?thesis using bad by simp
  qed
  from ok bad iff show ?thesis by blast
qed

text \<open>\<^verbatim>\<open>log("hello")\<close>, \<^verbatim>\<open>log(42)\<close>, \<^verbatim>\<open>log("a", "b")\<close> and \<^verbatim>\<open>log()\<close>.\<close>

theorem logFn_contract_witness:
  "logFn [VStr ''hello''] (init_world []) = (Inr VNil, log_Println ''hello'' (init_world [])) \<and>
   trace (log_Println ''hello'' (init_world [])) = [LogLine ''hello''] \<and>
   logFn [VInt64 42] (init_world []) =
     (Inl (Error ''log function takes a single string argument''), init_world []) \<and>
   logFn [VStr ''a'', VStr ''b''] (init_world []) =
     (Inl (Error ''log function takes a single string argument''), init_world []) \<and>
   logFn [] (init_world []) =
     (Inl (Error ''log function takes a single string argument''), init_world [])"
proof -
  note t1 = logFn_contract [where args = "[VStr ''hello'']" and w = "init_world []",
      THEN conjunct1, rule_format, OF refl]
  have n1: "\<forall>s. [VInt64 42] \<noteq> [VStr s]" by simp
  have n2: "\<forall>s. [VStr ''a'', VStr ''b''] \<noteq> [VStr s]" by simp
  have n3: "\<forall>s. [] \<noteq> [VStr s]" by simp
  note t2 = logFn_contract [where args = "[VInt64 42]" and w = "init_world []",
      THEN conjunct2, THEN conjunct1, THEN mp, OF n1]
  note t3 = logFn_contract [where args = "[VStr ''a'', VStr ''b'']" and w = "init_world []",
      THEN conjunct2, THEN conjunct1, THEN mp, OF n2]
  note t4 = logFn_contract [where args = "[]" and w = "init_world []",
      THEN conjunct2, THEN conjunct1, THEN mp, OF n3]
  have l: "trace (log_Println ''hello'' (init_world [])) = [LogLine ''hello'']"
    by (simp add: log_Println_def init_world_def)
  from t1 l t2 t3 t4 show ?thesis by (intro conjI)
qed

subsection \<open>The scope bridge\<close>

text \<open>
  C7. For every argument, \<^verbatim>\<open>Create\<close>, \<^verbatim>\<open>Branch\<close> and \<^verbatim>\<open>Enclose\<close> on the bridge scope
  panic with \<^verbatim>\<open>never reached\<close>: none of them returns, with or without an error.
\<close>

theorem GlobalScope_lexical_operations_panic:
  "GlobalScope_Create s symbol v = Panics ''never reached'' \<and>
   GlobalScope_Branch s = Panics ''never reached'' \<and>
   GlobalScope_Enclose s parent = Panics ''never reached'' \<and>
   (\<forall>r. GlobalScope_Create s symbol v \<noteq> Returns r) \<and>
   (\<forall>r. GlobalScope_Branch s \<noteq> Returns r) \<and>
   (\<forall>r. GlobalScope_Enclose s parent \<noteq> Returns r)"
proof -
  have c: "GlobalScope_Create s symbol v = Panics ''never reached''"
    by (simp add: GlobalScope_Create_def)
  have b: "GlobalScope_Branch s = Panics ''never reached''"
    by (simp add: GlobalScope_Branch_def)
  have e: "GlobalScope_Enclose s parent = Panics ''never reached''"
    by (simp add: GlobalScope_Enclose_def)
  show ?thesis
    unfolding c b e by simp
qed

subsection \<open>The rule batch\<close>

lemma run_rules_append: "run_rules T (xs @ ys) w = run_rules T ys (run_rules T xs w)"
  by (induction xs arbitrary: w) (auto split: prod.splits option.splits)

lemma Rule_Run_world:
  "snd (Rule_Run T r w) = snd (snd (Eval T (child_scope T (scope r)) (program r) w))"
  by (simp add: Rule_Run_def GlobalScope_Eval_def child_scope_def Let_def split: prod.splits sum.splits)

lemma Rule_Run_trace:
  assumes "\<And>sc node w. prefix (trace w) (trace (snd (snd (Eval T sc node w))))"
  shows "prefix (trace w) (trace (snd (Rule_Run T r w)))"
  using assms by (simp add: Rule_Run_world)

lemma run_rules_trace:
  assumes "\<And>sc node w. prefix (trace w) (trace (snd (snd (Eval T sc node w))))"
  shows "prefix (trace w) (trace (run_rules T rs w))"
proof (induction rs arbitrary: w)
  case Nil
  then show ?case by simp
next
  case (Cons r rs)
  let ?s = "rule_started r w"
  obtain e w' where run: "Rule_Run T r ?s = (e, w')" by (cases "Rule_Run T r ?s")
  have p0: "prefix (trace w) (trace ?s)" by (simp add: rule_started_def)
  have p1: "prefix (trace ?s) (trace w')"
    using Rule_Run_trace [OF assms, of ?s r] run by simp
  show ?case
  proof (cases e)
    case None
    with run have "run_rules T (r # rs) w = run_rules T rs w'" by simp
    moreover have "prefix (trace w') (trace (run_rules T rs w'))" by (rule Cons.IH)
    ultimately show ?thesis using p0 p1 by (metis prefix_order.trans)
  next
    case (Some err)
    let ?l = "log_Printf (error_line (Rule.Name r) err) w'"
    from Some run have "run_rules T (r # rs) w = run_rules T rs ?l" by simp
    moreover have "prefix (trace ?l) (trace (run_rules T rs ?l))" by (rule Cons.IH)
    moreover have "prefix (trace w') (trace ?l)" by (simp add: log_Printf_def)
    ultimately show ?thesis using p0 p1 by (metis prefix_order.trans)
  qed
qed

lemma run_rules_started:
  assumes mono: "\<And>sc node w. prefix (trace w) (trace (snd (snd (Eval T sc node w))))"
  shows "prefix (trace w @ [RuleRun (Rule.Name r)]) (trace (run_rules T (r # rs) w))"
proof -
  let ?s = "rule_started r w"
  obtain e w' where run: "Rule_Run T r ?s = (e, w')" by (cases "Rule_Run T r ?s")
  have t: "trace ?s = trace w @ [RuleRun (Rule.Name r)]" by (simp add: rule_started_def)
  have p1: "prefix (trace ?s) (trace w')"
    using Rule_Run_trace [OF mono, of ?s r] run by simp
  show ?thesis
  proof (cases e)
    case None
    with run have "run_rules T (r # rs) w = run_rules T rs w'" by simp
    moreover have "prefix (trace w') (trace (run_rules T rs w'))" by (rule run_rules_trace [OF mono])
    ultimately show ?thesis using p1 t by (metis prefix_order.trans)
  next
    case (Some err)
    let ?l = "log_Printf (error_line (Rule.Name r) err) w'"
    from Some run have "run_rules T (r # rs) w = run_rules T rs ?l" by simp
    moreover have "prefix (trace ?l) (trace (run_rules T rs ?l))" by (rule run_rules_trace [OF mono])
    moreover have "prefix (trace w') (trace ?l)" by (simp add: log_Printf_def)
    ultimately show ?thesis using p1 t by (metis prefix_order.trans)
  qed
qed

lemma run_rules_nth:
  assumes "j < length rules"
  shows "run_rules T rules w =
           run_rules T (rules ! j # drop (Suc j) rules) (run_rules T (take j rules) w)"
proof -
  have "rules = take j rules @ rules ! j # drop (Suc j) rules"
    using assms by (rule id_take_nth_drop)
  then have "run_rules T rules w = run_rules T (take j rules @ rules ! j # drop (Suc j) rules) w"
    by simp
  then show ?thesis by (simp only: run_rules_append)
qed

text \<open>
  C9. Let the evaluator only add to the trace. If, in a batch over \<open>rules\<close>, the run of the
  rule at position \<open>i\<close> returns an error with the message \<open>m\<close>, then the batch goes on with
  the rules after \<open>i\<close> from the world in which a line has been logged; that line is the text
  \<^verbatim>\<open>error in '\<close>, the name of the rule at position \<open>i\<close>, \<^verbatim>\<open>': \<close> and the message \<open>m\<close>; it is
  in the trace of the whole batch right after what the failed run left; and every rule at a
  later position \<open>j\<close> is started, after that line, in the world its predecessors left.
\<close>

theorem run_rules_continues_after_error:
  assumes mono: "\<And>sc node w. prefix (trace w) (trace (snd (snd (Eval T sc node w))))"
    and i: "i < length rules"
    and err: "Rule_Run T (rules ! i) (rule_started (rules ! i) (run_rules T (take i rules) w)) = (Some (Error m), w')"
  shows "run_rules T rules w =
           run_rules T (drop (Suc i) rules) (log_Printf (''error in '' @ [CHR 0x27] @ Rule.Name (rules ! i) @ [CHR 0x27] @ '': '' @ m) w') \<and>
         prefix (trace w' @ [LogLine (''error in '' @ [CHR 0x27] @ Rule.Name (rules ! i) @ [CHR 0x27] @ '': '' @ m)])
           (trace (run_rules T rules w)) \<and>
         (\<forall>j. i < j \<and> j < length rules \<longrightarrow>
            prefix (trace w' @ [LogLine (''error in '' @ [CHR 0x27] @ Rule.Name (rules ! i) @ [CHR 0x27] @ '': '' @ m)])
              (trace (run_rules T (take j rules) w)) \<and>
            prefix (trace (run_rules T (take j rules) w) @ [RuleRun (Rule.Name (rules ! j))])
              (trace (run_rules T rules w)))"
proof -
  define line where "line = ''error in '' @ [CHR 0x27] @ Rule.Name (rules ! i) @ [CHR 0x27] @ '': '' @ m"
  let ?l = "log_Printf line w'"
  have tl: "trace ?l = trace w' @ [LogLine line]" by (simp add: log_Printf_def)
  have step: "run_rules T (rules ! i # rs) (run_rules T (take i rules) w) = run_rules T rs ?l" for rs
    using err by (simp add: error_line_def line_def)
  have a: "run_rules T rules w = run_rules T (drop (Suc i) rules) ?l"
    using run_rules_nth [OF i, of T w] step by simp
  have b: "prefix (trace w' @ [LogLine line]) (trace (run_rules T rules w))"
    unfolding a using run_rules_trace [OF mono, of ?l] by (simp add: tl)
  have c: "prefix (trace w' @ [LogLine line]) (trace (run_rules T (take j rules) w)) \<and>
           prefix (trace (run_rules T (take j rules) w) @ [RuleRun (Rule.Name (rules ! j))])
              (trace (run_rules T rules w))"
    if j: "i < j \<and> j < length rules" for j
  proof
    have ij: "i < length (take j rules)" using j by simp
    have n: "take j rules ! i = rules ! i" using j by simp
    have tk: "take i (take j rules) = take i rules" using j by (simp add: min_def)
    have "run_rules T (take j rules) w =
            run_rules T (take j rules ! i # drop (Suc i) (take j rules))
              (run_rules T (take i (take j rules)) w)"
      by (rule run_rules_nth [OF ij])
    also have "\<dots> = run_rules T (rules ! i # drop (Suc i) (take j rules))
              (run_rules T (take i rules) w)"
      by (simp only: n tk)
    also have "\<dots> = run_rules T (drop (Suc i) (take j rules)) ?l"
      by (rule step)
    finally have "run_rules T (take j rules) w = run_rules T (drop (Suc i) (take j rules)) ?l" .
    then show "prefix (trace w' @ [LogLine line]) (trace (run_rules T (take j rules) w))"
      using run_rules_trace [OF mono, of ?l] by (simp add: tl)
  next
    have jl: "j < length rules" using j by simp
    show "prefix (trace (run_rules T (take j rules) w) @ [RuleRun (Rule.Name (rules ! j))])
              (trace (run_rules T rules w))"
      using run_rules_started [OF mono, of "run_rules T (take j rules) w" "rules ! j" "drop (Suc j) rules"]
        run_rules_nth [OF jl, of T w]
      by simp
  qed
  from a [unfolded line_def] b [unfolded line_def] c [unfolded line_def] show ?thesis by blast
qed

lemma logFn_trace: "prefix (trace w) (trace (snd (logFn args w)))"
  by (simp add: logFn_def log_Println_def split: option.splits)

lemma sample_Eval_trace: "prefix (trace w) (trace (snd (snd (sample_Eval E sc node w))))"
proof (cases node)
  case (NVar x v)
  then show ?thesis by (simp split: option.splits)
next
  case (NSym x)
  have "prefix (trace w) (trace (snd (VariableManager_Get E x w)))"
    by (simp add: Get_trace)
  with NSym show ?thesis by (auto simp: GlobalScope_Get_def split: option.splits prod.splits)
next
  case (NLog args)
  have "prefix (trace w) (trace (snd (logFn args w)))" by (rule logFn_trace)
  with NLog show ?thesis by (auto split: option.splits prod.splits val.splits func.splits)
qed

lemmas rule_defs = Rule_Run_def GlobalScope_Eval_def GlobalScope_Get_def sample_twik_def sample_Create_def
  sample_Enclose_def NewGlobalScope_def rule_started_def log_Println_def log_Printf_def logFn_def


text \<open>
  Three rules, the second of which fails on an undefined symbol: the first and the third
  write their log lines, and the error is logged with the second rule's name.
\<close>

theorem run_rules_continues_after_error_witness:
  "fst (Rule_Run (sample_twik sample_env) (batch3 ! 1)
          (rule_started (batch3 ! 1) (run_rules (sample_twik sample_env) (take 1 batch3) (init_world [])))) =
     Some (Error ''undefined symbol: missing'') \<and>
   prefix
     (trace (snd (Rule_Run (sample_twik sample_env) (batch3 ! 1)
          (rule_started (batch3 ! 1) (run_rules (sample_twik sample_env) (take 1 batch3) (init_world []))))) @
      [LogLine (''error in '' @ [CHR 0x27] @ ''second.rule'' @ [CHR 0x27] @ '': '' @
                ''undefined symbol: missing'')])
     (trace (run_rules (sample_twik sample_env) batch3 (init_world []))) \<and>
   prefix
     (trace (run_rules (sample_twik sample_env) (take 2 batch3) (init_world [])) @ [RuleRun ''third.rule''])
     (trace (run_rules (sample_twik sample_env) batch3 (init_world []))) \<and>
   trace (run_rules (sample_twik sample_env) batch3 (init_world [])) =
     [RuleRun ''first.rule'', LogLine ''one'', RuleRun ''second.rule'', StoreGet ''var~missing'',
      LogLine (''error in '' @ [CHR 0x27] @ ''second.rule'' @ [CHR 0x27] @ '': undefined symbol: missing''),
      RuleRun ''third.rule'', LogLine ''three'']"
proof -
  let ?T = "sample_twik sample_env :: (sample_scope, sample_node, unit, kv world) twik"
  let ?w0 = "init_world [] :: kv world"
  let ?r = "Rule_Run ?T (batch3 ! 1) (rule_started (batch3 ! 1) (run_rules ?T (take 1 batch3) ?w0))"
  have mono: "prefix (trace w) (trace (snd (snd (Eval ?T sc node w))))" for sc node w
    by (simp add: sample_twik_def sample_Eval_trace)
  have i: "1 < length batch3" by (simp add: batch3_def)
  have e: "fst ?r = Some (Error ''undefined symbol: missing'')"
    by (simp add: batch3_def rule_defs sample_defs vm_defs)
  then have err: "?r = (Some (Error ''undefined symbol: missing''), snd ?r)"
    by (metis prod.collapse)
  have n: "Rule.Name (batch3 ! 1) = ''second.rule''" "Rule.Name (batch3 ! 2) = ''third.rule''"
    by (simp_all add: batch3_def)
  have j: "1 < (2::nat) \<and> 2 < length batch3" by (simp add: batch3_def)
  note h = run_rules_continues_after_error [where T = ?T and i = 1 and rules = batch3 and w = ?w0
      and m = "''undefined symbol: missing''", OF mono i err]
  note h2 = h [THEN conjunct2, THEN conjunct1]
  note h3 = h [THEN conjunct2, THEN conjunct2, rule_format, OF j, THEN conjunct2]
  have t: "trace (run_rules ?T batch3 ?w0) =
     [RuleRun ''first.rule'', LogLine ''one'', RuleRun ''second.rule'', StoreGet ''var~missing'',
      LogLine (''error in '' @ [CHR 0x27] @ ''second.rule'' @ [CHR 0x27] @ '': undefined symbol: missing''),
      RuleRun ''third.rule'', LogLine ''three'']"
    by (simp add: batch3_def rule_defs sample_defs vm_defs error_line_def)
  from e h2 h3 t show ?thesis by (simp only: n simp_thms)
qed

subsection \<open>A fresh child scope for every evaluation\<close>

lemma Rule_Run_fresh:
  "Rule_Run T r w =
     (case Eval T (child_scope T (scope r)) (program r) w of
        (Inl e, sc, w2) \<Rightarrow> (Some e, w2)
      | (Inr x, sc, w2) \<Rightarrow> (None, w2))"
  by (simp add: Rule_Run_def GlobalScope_Eval_def child_scope_def Let_def split: prod.splits sum.splits)

lemma Rule_Run_scope_independent:
  assumes "NewDefaultScope T' = NewDefaultScope T" "Enclose T' = Enclose T" "Create T' = Create T"
    and "\<And>sc n x. fst (Eval T' sc n x) = fst (Eval T sc n x) \<and>
                     snd (snd (Eval T' sc n x)) = snd (snd (Eval T sc n x))"
  shows "Rule_Run T' r w = Rule_Run T r w"
proof -
  have c: "child_scope T' (scope r) = child_scope T (scope r)"
    using assms(1-3) by (simp add: child_scope_def)
  let ?e = "Eval T (child_scope T (scope r)) (program r) w"
  let ?e' = "Eval T' (child_scope T (scope r)) (program r) w"
  have "fst ?e' = fst ?e" "snd (snd ?e') = snd (snd ?e)" using assms(4) by simp_all
  then show ?thesis
    unfolding Rule_Run_fresh c
    by (cases ?e; cases ?e') (simp split: sum.splits)
qed

text \<open>
  C10. Every call of \<^verbatim>\<open>GlobalScope.Eval\<close> runs the evaluator in a newly built default scope
  that encloses the bridge and binds \<^verbatim>\<open>run\<close> and \<^verbatim>\<open>log\<close>, and drops the scope the evaluator
  leaves. So the second of two runs of a rule starts in that same new scope, in the world
  the first run left; and two interpreters that differ only in the scope an evaluation
  leaves behind give the same results for a run and for a run after a run: bindings made
  during one run reach no later run, only the world does.
\<close>

theorem GlobalScope_Eval_fresh_child_scope:
  fixes T :: "('sc, 'node, 'f, 'w) twik"
  shows
  "(\<exists>r sc' w'.
      Eval T (Create T (Create T (Enclose T (NewDefaultScope T (fset s)) s) ''run'' (VFunc Builtin_run))
                ''log'' (VFunc Builtin_log)) node w = (r, sc', w') \<and>
      GlobalScope_Eval T s node w = (r, w')) \<and>
   Rule_Run T rule (snd (Rule_Run T rule w)) =
     (case Eval T (Create T (Create T (Enclose T (NewDefaultScope T (fset (scope rule))) (scope rule))
                     ''run'' (VFunc Builtin_run)) ''log'' (VFunc Builtin_log))
             (program rule) (snd (Rule_Run T rule w)) of
        (Inl e, sc, w2) \<Rightarrow> (Some e, w2)
      | (Inr x, sc, w2) \<Rightarrow> (None, w2)) \<and>
   (\<forall>T' :: ('sc, 'node, 'f, 'w) twik.
         NewDefaultScope T' = NewDefaultScope T \<and> Enclose T' = Enclose T \<and> Create T' = Create T \<and>
         (\<forall>sc n x. fst (Eval T' sc n x) = fst (Eval T sc n x) \<and>
                   snd (snd (Eval T' sc n x)) = snd (snd (Eval T sc n x))) \<longrightarrow>
         Rule_Run T' rule w = Rule_Run T rule w \<and>
         Rule_Run T' rule (snd (Rule_Run T' rule w)) = Rule_Run T rule (snd (Rule_Run T rule w)))"
proof (intro conjI allI impI)
  show "\<exists>r sc' w'.
      Eval T (Create T (Create T (Enclose T (NewDefaultScope T (fset s)) s) ''run'' (VFunc Builtin_run))
                ''log'' (VFunc Builtin_log)) node w = (r, sc', w') \<and>
      GlobalScope_Eval T s node w = (r, w')"
    by (cases "Eval T (Create T (Create T (Enclose T (NewDefaultScope T (fset s)) s) ''run'' (VFunc Builtin_run))
                ''log'' (VFunc Builtin_log)) node w")
       (simp add: GlobalScope_Eval_def Let_def)
next
  show "Rule_Run T rule (snd (Rule_Run T rule w)) =
     (case Eval T (Create T (Create T (Enclose T (NewDefaultScope T (fset (scope rule))) (scope rule))
                     ''run'' (VFunc Builtin_run)) ''log'' (VFunc Builtin_log))
             (program rule) (snd (Rule_Run T rule w)) of
        (Inl e, sc, w2) \<Rightarrow> (Some e, w2)
      | (Inr x, sc, w2) \<Rightarrow> (None, w2))"
    by (simp only: Rule_Run_fresh [of T rule "snd (Rule_Run T rule w)"] child_scope_def)
next
  fix T' :: "('sc, 'node, 'f, 'w) twik"
  assume a: "NewDefaultScope T' = NewDefaultScope T \<and> Enclose T' = Enclose T \<and> Create T' = Create T \<and>
         (\<forall>sc n x. fst (Eval T' sc n x) = fst (Eval T sc n x) \<and>
                   snd (snd (Eval T' sc n x)) = snd (snd (Eval T sc n x)))"
  then have eq: "Rule_Run T' rule x = Rule_Run T rule x" for x
    by (intro Rule_Run_scope_independent) simp_all
  show "Rule_Run T' rule w = Rule_Run T rule w" by (rule eq)
  show "Rule_Run T' rule (snd (Rule_Run T' rule w)) = Rule_Run T rule (snd (Rule_Run T rule w))"
    by (simp add: eq)
qed


text \<open>
  A rule that declares \<^verbatim>\<open>tmp\<close>: evaluating it creates the binding, and evaluating it again
  in the scope it left would fail; run twice as a rule it succeeds both times.
\<close>

theorem GlobalScope_Eval_fresh_child_scope_witness:
  "Eval (sample_twik sample_env) ([(''log'', VFunc Builtin_log), (''run'', VFunc Builtin_run)], Some (NewGlobalScope ()))
     (NVar ''tmp'' (VInt64 1)) (init_world []) =
     (Inr (VInt64 1),
      ([(''tmp'', VInt64 1), (''log'', VFunc Builtin_log), (''run'', VFunc Builtin_run)], Some (NewGlobalScope ())), init_world []) \<and>
   fst (Eval (sample_twik sample_env)
          ([(''tmp'', VInt64 1), (''log'', VFunc Builtin_log), (''run'', VFunc Builtin_run)], Some (NewGlobalScope ()))
          (NVar ''tmp'' (VInt64 1)) (init_world [])) =
     Inl (Error ''symbol already defined in current scope: tmp'') \<and>
   Rule_Run (sample_twik sample_env) tmp_rule (init_world []) = (None, init_world []) \<and>
   Rule_Run (sample_twik sample_env) tmp_rule
     (snd (Rule_Run (sample_twik sample_env) tmp_rule (init_world []))) = (None, init_world []) \<and>
   Rule_Run (forgetful_twik sample_env) tmp_rule
     (snd (Rule_Run (forgetful_twik sample_env) tmp_rule (init_world []))) = (None, init_world [])"
proof -
  let ?T = "sample_twik sample_env :: (sample_scope, sample_node, unit, kv world) twik"
  let ?T' = "forgetful_twik sample_env :: (sample_scope, sample_node, unit, kv world) twik"
  let ?w0 = "init_world [] :: kv world"
  have s: "Create ?T (Create ?T (Enclose ?T (NewDefaultScope ?T (fset (scope tmp_rule))) (scope tmp_rule))
             ''run'' (VFunc Builtin_run)) ''log'' (VFunc Builtin_log) =
           ([(''log'', VFunc Builtin_log), (''run'', VFunc Builtin_run)], Some (NewGlobalScope ()))"
    by (simp add: sample_twik_def sample_Create_def sample_Enclose_def tmp_rule_def NewGlobalScope_def)
  have e1: "Eval ?T ([(''log'', VFunc Builtin_log), (''run'', VFunc Builtin_run)], Some (NewGlobalScope ()))
     (NVar ''tmp'' (VInt64 1)) ?w0 =
     (Inr (VInt64 1),
      ([(''tmp'', VInt64 1), (''log'', VFunc Builtin_log), (''run'', VFunc Builtin_run)], Some (NewGlobalScope ())), ?w0)"
    by (simp add: sample_twik_def)
  have e2: "fst (Eval ?T ([(''tmp'', VInt64 1), (''log'', VFunc Builtin_log), (''run'', VFunc Builtin_run)], Some (NewGlobalScope ()))
          (NVar ''tmp'' (VInt64 1)) ?w0) =
     Inl (Error ''symbol already defined in current scope: tmp'')"
    by (simp add: sample_twik_def)
  have r1: "Rule_Run ?T tmp_rule ?w0 = (None, ?w0)"
    by (simp add: tmp_rule_def rule_defs)
  have p: "program tmp_rule = NVar ''tmp'' (VInt64 1)" by (simp add: tmp_rule_def)
  have hyp: "NewDefaultScope ?T' = NewDefaultScope ?T \<and> Enclose ?T' = Enclose ?T \<and> Create ?T' = Create ?T \<and>
         (\<forall>sc n x. fst (Eval ?T' sc n x) = fst (Eval ?T sc n x) \<and>
                   snd (snd (Eval ?T' sc n x)) = snd (snd (Eval ?T sc n x)))"
    by (simp add: forgetful_twik_def sample_twik_def split: prod.splits)
  note h = GlobalScope_Eval_fresh_child_scope [where T = ?T and rule = tmp_rule and w = ?w0
      and s = "scope tmp_rule" and node = "program tmp_rule"]
  have "Rule_Run ?T tmp_rule (snd (Rule_Run ?T tmp_rule ?w0)) =
     (case Eval ?T ([(''log'', VFunc Builtin_log), (''run'', VFunc Builtin_run)], Some (NewGlobalScope ()))
             (NVar ''tmp'' (VInt64 1)) (snd (Rule_Run ?T tmp_rule ?w0)) of
        (Inl e, sc, w2) \<Rightarrow> (Some e, w2)
      | (Inr x, sc, w2) \<Rightarrow> (None, w2))"
    using h [THEN conjunct2, THEN conjunct1] by (simp only: s p)
  also have "\<dots> = (None, ?w0)"
    by (simp only: r1 snd_conv e1) simp
  finally have r2: "Rule_Run ?T tmp_rule (snd (Rule_Run ?T tmp_rule ?w0)) = (None, ?w0)" .
  have r3: "Rule_Run ?T' tmp_rule (snd (Rule_Run ?T' tmp_rule ?w0)) = (None, ?w0)"
    using h [THEN conjunct2, THEN conjunct2, rule_format, OF hyp, THEN conjunct2] r2 by simp
  from e1 e2 r1 r2 r3 show ?thesis by (intro conjI)
qed

end
